theory Spec2Isabelle
  imports Main "HOL-Library.Char_ord" "HOL-Library.List_Lexorder" "HOL-Library.AList"
    "HOL-Library.Multiset"
begin

section \<open>Python values, exceptions and string helpers\<close>

text \<open>
  The values a caller can hand to a property setter of \<^verbatim>\<open>Analysis\<close>. \<open>PyStr\<close> stands for
  both \<^verbatim>\<open>str\<close> and \<^verbatim>\<open>unicode\<close> (the setters accept either), \<open>PyOther r\<close> for a value of
  any other type whose \<^verbatim>\<open>str()\<close> is \<open>r\<close>.
\<close>

datatype py_value = PyNone | PyStr string | PyInt int | PyBool bool | PyOther string

text \<open>
  The exceptions the module can raise. A failed \<^verbatim>\<open>assert\<close> is an \<open>AssertionError\<close> with
  the formatted message; the read-only setters raise \<open>AttributeError\<close>.
\<close>

datatype error =
    AssertionError string
  | AttributeError string
  | TypeError string
  | ValueError string
  | KeyError string
  | StopIteration
  | ExternalError string

definition quoted :: "string \<Rightarrow> string" where
  "quoted s = CHR 0x22 # s @ [CHR 0x22]"

fun show_nat :: "nat \<Rightarrow> string" where
  "show_nat n =
     (if n < 10 then [char_of (48 + n)]
      else show_nat (n div 10) @ [char_of (48 + n mod 10)])"

definition show_int :: "int \<Rightarrow> string" where
  "show_int i = (if i < 0 then CHR ''-'' # show_nat (nat (- i)) else show_nat (nat i))"

fun py_str :: "py_value \<Rightarrow> string" where
  "py_str PyNone = ''None''"
| "py_str (PyStr s) = s"
| "py_str (PyInt i) = show_int i"
| "py_str (PyBool b) = (if b then ''True'' else ''False'')"
| "py_str (PyOther r) = r"

text \<open>\<^verbatim>\<open>sep.join(xs)\<close>.\<close>

fun join :: "string \<Rightarrow> string list \<Rightarrow> string" where
  "join sep [] = []"
| "join sep [x] = x"
| "join sep (x # y # ys) = x @ sep @ join sep (y # ys)"

text \<open>\<^verbatim>\<open>s.lower()\<close> on ASCII letters; every other character is kept.\<close>

definition lower_char :: "char \<Rightarrow> char" where
  "lower_char c =
     (case map_of (zip ''ABCDEFGHIJKLMNOPQRSTUVWXYZ'' ''abcdefghijklmnopqrstuvwxyz'') c of
        Some d \<Rightarrow> d
      | None \<Rightarrow> c)"

definition lower :: "string \<Rightarrow> string" where
  "lower s = map lower_char s"

text \<open>
  \<^verbatim>\<open>sorted(xs)\<close> on strings is \<^const>\<open>sort\<close> under the lexicographic order on character
  codes.
\<close>

section \<open>The named tuples\<close>

datatype Sequence = Sequence (seq_modifiers: "string list") (seq_key: "string option")

datatype Action = Action
  (action_name: "string option")
  (action_description: "string option")
  (action_sequence: Sequence)

datatype ViewPreset = ViewPreset
  (preset_name: string)
  (preset_description: string)
  (preset_view: string)
  (preset_row: int)
  (preset_column: int)
  (preset_row_span: int)
  (preset_column_span: int)

datatype LayoutPreset = LayoutPreset
  (layout_preset_name: string)
  (layout_preset_description: string)
  (layout_preset_views: "(string \<times> ViewPreset) list")

section \<open>The settings structure\<close>

text \<open>
  The settings are a decoded JSON document. Its objects are association lists in iteration
  order; a key that the code reads with \<^verbatim>\<open>.get\<close> is an \<open>option\<close>. The \<^verbatim>\<open>canvas\<close> entry
  (sizes and colours handed to the rendering backend) carries no behaviour of the
  coordinator and is left out.
\<close>

record view_settings =
  vs_name :: string
  vs_description :: string
  vs_view :: string
  vs_row :: int
  vs_column :: int
  vs_row_span :: int
  vs_column_span :: int

record layout_settings =
  ls_name :: string
  ls_description :: string
  ls_views :: "(string \<times> view_settings) list"

record sequence_settings =
  ss_modifiers :: "string list option"
  ss_key :: "string option"

record action_settings =
  as_name :: "string option"
  as_description :: "string option"
  as_sequence :: "sequence_settings option"

record settings_doc =
  st_layouts :: "layout_settings list"
  st_actions :: "(string \<times> action_settings) list option"

section \<open>Views, grid and cycling iterators\<close>

datatype view_id = ConsoleView | GamutView | ImageView | DiagramView

text \<open>
  Modelled from the spec: the view classes of \<^verbatim>\<open>colour_analysis.views\<close> are not part of the
  sources at hand. A view is what the coordinator sees of it: the names of the
  \<^verbatim>\<open><action>_action\<close> methods it exposes, and the two settable properties the coordinator
  pushes values to.
\<close>

record view =
  view_methods :: "string list"
  view_correlate_colourspace :: "string option"
  view_reference_colourspace :: "string option"

text \<open>One \<^verbatim>\<open>add_widget\<close> call on the grid of the rendering backend.\<close>

record placement =
  pl_widget :: view_id
  pl_row :: int
  pl_col :: int
  pl_row_span :: int
  pl_col_span :: int

text \<open>
  \<^verbatim>\<open>itertools.cycle(iterable)\<close>: the saved elements and the index of the next one.
  \<^verbatim>\<open>next\<close> on a cycle over nothing raises \<^verbatim>\<open>StopIteration\<close>.
\<close>

datatype 'a cycle = Cycle (cycle_saved: "'a list") (cycle_pos: nat)

definition cycle_next :: "'a cycle \<Rightarrow> error + ('a \<times> 'a cycle)" where
  "cycle_next c =
     (if cycle_saved c = [] then Inl StopIteration
      else Inr (cycle_saved c ! cycle_pos c,
                Cycle (cycle_saved c) (Suc (cycle_pos c) mod length (cycle_saved c))))"

text \<open>
  \<^verbatim>\<open>deque.rotate(n)\<close>: \<open>n\<close> steps to the right, to the left when \<open>n\<close> is negative; nothing
  on an empty deque.
\<close>

definition deque_rotate :: "int \<Rightarrow> 'a list \<Rightarrow> 'a list" where
  "deque_rotate n xs = rotate (nat ((- n) mod int (length xs))) xs"

text \<open>\<^verbatim>\<open>xs.index(x)\<close>: the first position of \<open>x\<close>, \<^verbatim>\<open>ValueError\<close> when there is none.\<close>

fun py_index :: "'a list \<Rightarrow> 'a \<Rightarrow> error + nat" where
  "py_index [] x = Inl (ValueError ''x not in list'')"
| "py_index (y # ys) x =
     (if y = x then Inr 0
      else (case py_index ys x of Inl e \<Rightarrow> Inl e | Inr i \<Rightarrow> Inr (Suc i)))"

section \<open>The coordinator's state and its environment\<close>

datatype target = Coordinator | View view_id

text \<open>
  The private attributes of an \<^verbatim>\<open>Analysis\<close> object. \<open>image_data\<close> is \<^verbatim>\<open>__image\<close>, an array of
  rows of pixels of channel samples. \<open>views\<close> is the tuple \<^verbatim>\<open>__views\<close>: it holds references
  to the view objects, which live in the four view attributes. \<open>calls\<close> is not an attribute:
  it records, in order, every handler the dispatcher has invoked and on which object.
\<close>

record 'a analysis =
  image_path :: "string option"
  image_data :: "'a list list list option"
  input_colourspace :: "string option"
  input_oecf :: "string option"
  input_linear :: "bool option"
  input_resample :: "int option"
  reference_colourspace :: "string option"
  correlate_colourspace :: "string option"
  settings :: "settings_doc option"
  layout :: "string option"
  layout_presets :: "(string \<times> LayoutPreset) list"
  actions :: "(string \<times> Action) list"
  console_view :: "view option"
  gamut_view :: "view option"
  image_view :: "view option"
  diagram_view :: "view option"
  views :: "view_id list option"
  grid :: "placement list option"
  RGB_colourspaces_cycle :: "string cycle"
  reference_colourspaces_cycle :: "string cycle"
  calls :: "(target \<times> string) list"

text \<open>
  What the module imports and does not define: the keys of the registry
  \<^verbatim>\<open>RGB_COLOURSPACES\<close> (a case-insensitive mapping of the colour library, see
  \<open>rgb_contains\<close> below), the names of the sequence \<^verbatim>\<open>REFERENCE_COLOURSPACES\<close> in their order
  (the constructor calls \<^verbatim>\<open>.index\<close> on it and builds a \<^verbatim>\<open>deque\<close> from it), the file
  system, the image decoder, the inverse transfer function of a colour space (applied to
  every sample), the array \<^verbatim>\<open>np.random.random\<close> returns, and the handler methods each view
  class defines.
\<close>

record 'a env =
  RGB_COLOURSPACES :: "string list"
  REFERENCE_COLOURSPACES :: "string list"
  path_exists :: "string \<Rightarrow> bool"
  read_image :: "string option \<Rightarrow> error + 'a list list list"
  inverse_transfer_function :: "string \<Rightarrow> 'a \<Rightarrow> 'a"
  random_image :: "'a list list list"
  view_class_methods :: "view_id \<Rightarrow> string list"

text \<open>The object before \<^verbatim>\<open>__init__\<close> has assigned anything.\<close>

definition new_analysis :: "'a analysis" where
  "new_analysis =
     \<lparr>image_path = None, image_data = None, input_colourspace = None, input_oecf = None,
      input_linear = None, input_resample = None, reference_colourspace = None,
      correlate_colourspace = None, settings = None, layout = None, layout_presets = [],
      actions = [], console_view = None, gamut_view = None, image_view = None,
      diagram_view = None, views = None, grid = None,
      RGB_colourspaces_cycle = Cycle [] 0, reference_colourspaces_cycle = Cycle [] 0,
      calls = []\<rparr>"

section \<open>Property setters\<close>

text \<open>
  \<^verbatim>\<open>value in RGB_COLOURSPACES\<close> and \<^verbatim>\<open>RGB_COLOURSPACES[value]\<close>: the registry of the colour
  library is a case-insensitive mapping, which lowercases the key it is asked for and
  compares it with its own keys in lowercase. Iterating it, as \<^verbatim>\<open>sorted\<close> and \<^verbatim>\<open>.keys()\<close> do,
  gives the keys as they were written.
\<close>

definition rgb_contains :: "'a env \<Rightarrow> string \<Rightarrow> bool" where
  "rgb_contains env n = (lower n \<in> set (map lower (RGB_COLOURSPACES env)))"

definition str_type_message :: "string \<Rightarrow> py_value \<Rightarrow> string" where
  "str_type_message field v =
     quoted field @ '' attribute: '' @ quoted (py_str v) @ '' type is not '' @ quoted ''str''
       @ '' or '' @ quoted ''unicode'' @ ''!''"

definition set_image_path ::
  "'a env \<Rightarrow> py_value \<Rightarrow> 'a analysis \<Rightarrow> (error + unit) \<times> 'a analysis" where
  "set_image_path env v s =
     (case v of
        PyNone \<Rightarrow> (Inr (), s\<lparr>image_path := None\<rparr>)
      | PyStr p \<Rightarrow>
          if path_exists env p then (Inr (), s\<lparr>image_path := Some p\<rparr>)
          else (Inl (AssertionError (quoted p @ '' input image doesn't exists!'')), s)
      | _ \<Rightarrow> (Inl (AssertionError (str_type_message ''image_path'' v)), s))"

definition set_image ::
  "'a list list list option \<Rightarrow> 'a analysis \<Rightarrow> (error + unit) \<times> 'a analysis" where
  "set_image v s = (Inr (), s\<lparr>image_data := v\<rparr>)"

definition set_input_colourspace ::
  "'a env \<Rightarrow> py_value \<Rightarrow> 'a analysis \<Rightarrow> (error + unit) \<times> 'a analysis" where
  "set_input_colourspace env v s =
     (case v of
        PyNone \<Rightarrow> (Inr (), s\<lparr>input_colourspace := None\<rparr>)
      | PyStr n \<Rightarrow>
          if rgb_contains env n then (Inr (), s\<lparr>input_colourspace := Some n\<rparr>)
          else (Inl (AssertionError
                  (quoted n @ '' colourspace not found in factory RGB colourspaces: ''
                    @ quoted (join '', '' (sort (RGB_COLOURSPACES env))) @ ''.'')), s)
      | _ \<Rightarrow> (Inl (AssertionError (str_type_message ''input_colourspace'' v)), s))"

definition set_input_oecf ::
  "'a env \<Rightarrow> py_value \<Rightarrow> 'a analysis \<Rightarrow> (error + unit) \<times> 'a analysis" where
  "set_input_oecf env v s =
     (case v of
        PyNone \<Rightarrow> (Inr (), s\<lparr>input_oecf := None\<rparr>)
      | PyStr n \<Rightarrow>
          if rgb_contains env n then (Inr (), s\<lparr>input_oecf := Some n\<rparr>)
          else (Inl (AssertionError
                  (quoted n @ '' OECF is not associated with any factory RGB colourspaces: ''
                    @ quoted (join '', '' (sort (RGB_COLOURSPACES env))) @ ''.'')), s)
      | _ \<Rightarrow> (Inl (AssertionError (str_type_message ''input_oecf'' v)), s))"

definition set_input_linear ::
  "py_value \<Rightarrow> 'a analysis \<Rightarrow> (error + unit) \<times> 'a analysis" where
  "set_input_linear v s =
     (case v of
        PyNone \<Rightarrow> (Inr (), s\<lparr>input_linear := None\<rparr>)
      | PyBool b \<Rightarrow> (Inr (), s\<lparr>input_linear := Some b\<rparr>)
      | _ \<Rightarrow> (Inl (AssertionError
                 (quoted ''input_linear'' @ '' attribute: '' @ quoted (py_str v)
                   @ '' type is not '' @ quoted ''bool'' @ ''!'')), s))"

definition set_input_resample ::
  "py_value \<Rightarrow> 'a analysis \<Rightarrow> (error + unit) \<times> 'a analysis" where
  "set_input_resample v s =
     (case v of
        PyNone \<Rightarrow> (Inr (), s\<lparr>input_resample := None\<rparr>)
      | PyInt i \<Rightarrow> (Inr (), s\<lparr>input_resample := Some i\<rparr>)
      | _ \<Rightarrow> (Inl (AssertionError
                 (quoted ''input_resample'' @ '' attribute: '' @ quoted (py_str v)
                   @ '' type is not '' @ quoted ''int'' @ ''!'')), s))"

text \<open>
  The assertion message of the reference setter is built with
  \<^verbatim>\<open>REFERENCE_COLOURSPACES.keys()\<close>. The message of an \<^verbatim>\<open>assert\<close> is evaluated when the
  condition is false, and the sequence has no \<^verbatim>\<open>keys\<close>: a name that is not in the
  sequence ends in the attribute error of that call, before any assertion error is made.
\<close>

definition set_reference_colourspace ::
  "'a env \<Rightarrow> py_value \<Rightarrow> 'a analysis \<Rightarrow> (error + unit) \<times> 'a analysis" where
  "set_reference_colourspace env v s =
     (case v of
        PyNone \<Rightarrow> (Inr (), s\<lparr>reference_colourspace := None\<rparr>)
      | PyStr n \<Rightarrow>
          if n \<in> set (REFERENCE_COLOURSPACES env)
          then (Inr (), s\<lparr>reference_colourspace := Some n\<rparr>)
          else (Inl (AttributeError ''tuple object has no attribute keys''), s)
      | _ \<Rightarrow> (Inl (AssertionError (str_type_message ''reference_colourspace'' v)), s))"

definition set_correlate_colourspace ::
  "'a env \<Rightarrow> py_value \<Rightarrow> 'a analysis \<Rightarrow> (error + unit) \<times> 'a analysis" where
  "set_correlate_colourspace env v s =
     (case v of
        PyNone \<Rightarrow> (Inr (), s\<lparr>correlate_colourspace := None\<rparr>)
      | PyStr n \<Rightarrow>
          if rgb_contains env n
          then (Inr (), s\<lparr>correlate_colourspace := Some n\<rparr>)
          else (Inl (AssertionError
                  (quoted n @ '' colourspace not found in factory RGB colourspaces: ''
                    @ quoted (join '', '' (sort (RGB_COLOURSPACES env))) @ ''.'')), s)
      | _ \<Rightarrow> (Inl (AssertionError (str_type_message ''correlate_colourspace'' v)), s))"

definition set_layout ::
  "py_value \<Rightarrow> 'a analysis \<Rightarrow> (error + unit) \<times> 'a analysis" where
  "set_layout v s =
     (case v of
        PyNone \<Rightarrow> (Inr (), s\<lparr>layout := None\<rparr>)
      | PyStr n \<Rightarrow> (Inr (), s\<lparr>layout := Some n\<rparr>)
      | _ \<Rightarrow> (Inl (AssertionError (str_type_message ''layout'' v)), s))"

text \<open>
  The setters of the read-only properties take the value and the object and raise: the
  value is never looked at and nothing is assigned.
\<close>

definition read_only_message :: "string \<Rightarrow> string" where
  "read_only_message field = quoted field @ '' attribute is read only!''"

definition set_settings ::
  "py_value \<Rightarrow> 'a analysis \<Rightarrow> (error + unit) \<times> 'a analysis" where
  "set_settings v s = (Inl (AttributeError (read_only_message ''settings'')), s)"

definition set_actions ::
  "py_value \<Rightarrow> 'a analysis \<Rightarrow> (error + unit) \<times> 'a analysis" where
  "set_actions v s = (Inl (AttributeError (read_only_message ''actions'')), s)"

definition set_console_view ::
  "py_value \<Rightarrow> 'a analysis \<Rightarrow> (error + unit) \<times> 'a analysis" where
  "set_console_view v s = (Inl (AttributeError (read_only_message ''console_view'')), s)"

definition set_gamut_view ::
  "py_value \<Rightarrow> 'a analysis \<Rightarrow> (error + unit) \<times> 'a analysis" where
  "set_gamut_view v s = (Inl (AttributeError (read_only_message ''gamut_view'')), s)"

definition set_image_view ::
  "py_value \<Rightarrow> 'a analysis \<Rightarrow> (error + unit) \<times> 'a analysis" where
  "set_image_view v s = (Inl (AttributeError (read_only_message ''image_view'')), s)"

definition set_diagram_view ::
  "py_value \<Rightarrow> 'a analysis \<Rightarrow> (error + unit) \<times> 'a analysis" where
  "set_diagram_view v s = (Inl (AttributeError (read_only_message ''diagram_view'')), s)"

section \<open>Construction steps\<close>

text \<open>\<^verbatim>\<open>__create_layout_presets\<close>: assigning to a dictionary key replaces a bound key in place
  and appends a new one, which is \<^const>\<open>AList.update\<close>.\<close>

definition view_preset_of :: "view_settings \<Rightarrow> ViewPreset" where
  "view_preset_of v =
     ViewPreset (vs_name v) (vs_description v) (vs_view v) (vs_row v) (vs_column v)
       (vs_row_span v) (vs_column_span v)"

definition layout_preset_of :: "layout_settings \<Rightarrow> LayoutPreset" where
  "layout_preset_of l =
     LayoutPreset (ls_name l) (ls_description l)
       (foldl (\<lambda>vws (name, v). AList.update name (view_preset_of v) vws) [] (ls_views l))"

definition create_layout_presets :: "'a analysis \<Rightarrow> (error + unit) \<times> 'a analysis" where
  "create_layout_presets s =
     (case settings s of
        None \<Rightarrow> (Inl (TypeError ''NoneType object has no attribute __getitem__''), s)
      | Some st \<Rightarrow>
          (Inr (),
           s\<lparr>layout_presets :=
               foldl (\<lambda>presets l. AList.update (ls_name l) (layout_preset_of l) presets)
                 (layout_presets s) (st_layouts st)\<rparr>))"

text \<open>\<^verbatim>\<open>__create_actions\<close>. A settings document without \<^verbatim>\<open>actions\<close> makes the code call
  \<^verbatim>\<open>.items()\<close> on the default \<^verbatim>\<open>()\<close>.\<close>

definition sequence_of :: "action_settings \<Rightarrow> Sequence" where
  "sequence_of a =
     (case as_sequence a of
        Some q \<Rightarrow> Sequence (case ss_modifiers q of Some m \<Rightarrow> m | None \<Rightarrow> []) (ss_key q)
      | None \<Rightarrow> Sequence [] None)"

definition action_of :: "action_settings \<Rightarrow> Action" where
  "action_of a = Action (as_name a) (as_description a) (sequence_of a)"

definition create_actions :: "'a analysis \<Rightarrow> (error + unit) \<times> 'a analysis" where
  "create_actions s =
     (case settings s of
        None \<Rightarrow> (Inl (AttributeError ''NoneType object has no attribute get''), s\<lparr>actions := []\<rparr>)
      | Some st \<Rightarrow>
          (case st_actions st of
             None \<Rightarrow> (Inl (AttributeError ''tuple object has no attribute items''), s\<lparr>actions := []\<rparr>)
           | Some entries \<Rightarrow>
               (Inr (),
                s\<lparr>actions :=
                    foldl (\<lambda>acts (name, a). AList.update name (action_of a) acts) [] entries\<rparr>)))"

text \<open>\<^verbatim>\<open>xs[::k]\<close> for a positive \<open>k\<close> keeps the elements at positions \<open>0, k, 2k, ...\<close>; for a
  negative \<open>k\<close> it walks from the last element backwards; \<open>k = 0\<close> raises.\<close>

fun every_nth :: "nat \<Rightarrow> 'a list \<Rightarrow> 'a list" where
  "every_nth n [] = []"
| "every_nth n (x # xs) = x # every_nth n (drop (n - 1) xs)"

definition strided :: "int \<Rightarrow> 'a list \<Rightarrow> 'a list" where
  "strided k xs = (if 0 < k then every_nth (nat k) xs else every_nth (nat (- k)) (rev xs))"

definition resample :: "int option \<Rightarrow> 'a list list list \<Rightarrow> error + 'a list list list" where
  "resample step img =
     (case step of
        None \<Rightarrow> Inr img
      | Some k \<Rightarrow>
          if k = 0 then Inl (ValueError ''slice step cannot be zero'')
          else Inr (map (strided k) (strided k img)))"

text \<open>\<^verbatim>\<open>image[..., 0:3]\<close>.\<close>

definition keep_rgb :: "'a list list list \<Rightarrow> 'a list list list" where
  "keep_rgb img = map (map (take 3)) img"

definition linearise :: "'a env \<Rightarrow> 'a analysis \<Rightarrow> 'a list list list \<Rightarrow> error + 'a list list list" where
  "linearise env s img =
     (if input_linear s = Some True then Inr img
      else (case input_oecf s of
              None \<Rightarrow> Inl (KeyError ''None'')
            | Some oecf \<Rightarrow>
                if rgb_contains env oecf
                then Inr (map (map (map (inverse_transfer_function env oecf))) img)
                else Inl (KeyError oecf)))"

definition create_image :: "'a env \<Rightarrow> 'a analysis \<Rightarrow> (error + unit) \<times> 'a analysis" where
  "create_image env s =
     (case read_image env (image_path s) of
        Inl e \<Rightarrow> (Inl e, s)
      | Inr decoded \<Rightarrow>
          (case linearise env s decoded of
             Inl e \<Rightarrow> (Inl e, s)
           | Inr linear \<Rightarrow>
               (case resample (input_resample s) (keep_rgb linear) of
                  Inl e \<Rightarrow> (Inl e, s)
                | Inr img \<Rightarrow> (Inr (), s\<lparr>image_data := Some img\<rparr>))))"

text \<open>\<^verbatim>\<open>__create_views\<close>: the four views are built, three of them enter \<^verbatim>\<open>__views\<close>.\<close>

definition create_views :: "'a env \<Rightarrow> 'a analysis \<Rightarrow> (error + unit) \<times> 'a analysis" where
  "create_views env s =
     (case settings s of
        None \<Rightarrow> (Inl (TypeError ''NoneType object has no attribute __getitem__''), s)
      | Some st \<Rightarrow>
          (Inr (),
           s\<lparr>console_view :=
               Some \<lparr>view_methods = view_class_methods env ConsoleView,
                     view_correlate_colourspace = None,
                     view_reference_colourspace = None\<rparr>,
             gamut_view :=
               Some \<lparr>view_methods = view_class_methods env GamutView,
                     view_correlate_colourspace = correlate_colourspace s,
                     view_reference_colourspace = reference_colourspace s\<rparr>,
             image_view :=
               Some \<lparr>view_methods = view_class_methods env ImageView,
                     view_correlate_colourspace = correlate_colourspace s,
                     view_reference_colourspace = None\<rparr>,
             diagram_view :=
               Some \<lparr>view_methods = view_class_methods env DiagramView,
                     view_correlate_colourspace = correlate_colourspace s,
                     view_reference_colourspace = None\<rparr>,
             views := Some [ConsoleView, GamutView, ImageView]\<rparr>))"

fun get_view :: "view_id \<Rightarrow> 'a analysis \<Rightarrow> view option" where
  "get_view ConsoleView s = console_view s"
| "get_view GamutView s = gamut_view s"
| "get_view ImageView s = image_view s"
| "get_view DiagramView s = diagram_view s"

text \<open>\<^verbatim>\<open>__layout_views\<close>. \<^verbatim>\<open>getattr(self, view.view)\<close> is resolved for the four view
  properties, which is what a view preset is meant to name. The model stops there: an
  identifier that names another attribute of the canvas (\<^verbatim>\<open>central_widget\<close>, say) is
  handed to the grid by the code and is an attribute error here, so the statements about
  the layout are made for presets that name view properties.\<close>

definition widget_named :: "string \<Rightarrow> view_id option" where
  "widget_named n =
     (if n = ''console_view'' then Some ConsoleView
      else if n = ''gamut_view'' then Some GamutView
      else if n = ''image_view'' then Some ImageView
      else if n = ''diagram_view'' then Some DiagramView
      else None)"

definition placement_of :: "view_id \<Rightarrow> ViewPreset \<Rightarrow> placement" where
  "placement_of w p =
     \<lparr>pl_widget = w, pl_row = preset_row p, pl_col = preset_column p,
      pl_row_span = preset_row_span p, pl_col_span = preset_column_span p\<rparr>"

fun add_widgets :: "ViewPreset list \<Rightarrow> placement list \<Rightarrow> (error + unit) \<times> placement list" where
  "add_widgets [] g = (Inr (), g)"
| "add_widgets (p # ps) g =
     (case widget_named (preset_view p) of
        None \<Rightarrow>
          (Inl (AttributeError (''Analysis object has no attribute '' @ preset_view p)), g)
      | Some w \<Rightarrow> add_widgets ps (g @ [placement_of w p]))"

definition resolve_layout :: "'a analysis \<Rightarrow> LayoutPreset option" where
  "resolve_layout s =
     (case layout s of None \<Rightarrow> None | Some n \<Rightarrow> map_of (layout_presets s) n)"

definition layout_views :: "'a analysis \<Rightarrow> (error + unit) \<times> 'a analysis" where
  "layout_views s =
     (case resolve_layout s of
        None \<Rightarrow>
          (Inl (AttributeError ''NoneType object has no attribute views''), s\<lparr>grid := Some []\<rparr>)
      | Some l \<Rightarrow>
          (case add_widgets (map snd (layout_preset_views l)) [] of
             (r, g) \<Rightarrow> (r, s\<lparr>grid := Some g\<rparr>)))"

text \<open>The two cycling iterators of \<^verbatim>\<open>__init__\<close>.\<close>

definition correlate_candidates :: "'a env \<Rightarrow> string list" where
  "correlate_candidates env =
     filter (\<lambda>c. c \<notin> set [''aces'', ''adobe1998'', ''prophoto''])
       (sort (RGB_COLOURSPACES env))"

definition create_cycles :: "'a env \<Rightarrow> 'a analysis \<Rightarrow> (error + unit) \<times> 'a analysis" where
  "create_cycles env s =
     (case (case reference_colourspace s of
              None \<Rightarrow> Inl (ValueError ''x not in list'')
            | Some r \<Rightarrow> py_index (REFERENCE_COLOURSPACES env) r) of
        Inl e \<Rightarrow> (Inl e, s\<lparr>RGB_colourspaces_cycle := Cycle (correlate_candidates env) 0\<rparr>)
      | Inr i \<Rightarrow>
          (Inr (),
           s\<lparr>RGB_colourspaces_cycle := Cycle (correlate_candidates env) 0,
             reference_colourspaces_cycle :=
               Cycle (deque_rotate (- int i - 1) (REFERENCE_COLOURSPACES env)) 0\<rparr>))"

section \<open>The built-in actions\<close>

definition cycle_correlate_colourspace_action ::
  "'a analysis \<Rightarrow> (error + bool) \<times> 'a analysis" where
  "cycle_correlate_colourspace_action s =
     (case cycle_next (RGB_colourspaces_cycle s) of
        Inl e \<Rightarrow> (Inl e, s)
      | Inr (c, cyc) \<Rightarrow>
          (case gamut_view s of
             None \<Rightarrow>
               (Inl (AttributeError ''NoneType object has no attribute correlate_colourspace''),
                s\<lparr>RGB_colourspaces_cycle := cyc, correlate_colourspace := Some c\<rparr>)
           | Some g \<Rightarrow>
               (case image_view s of
                  None \<Rightarrow>
                    (Inl (AttributeError
                       ''NoneType object has no attribute correlate_colourspace''),
                     s\<lparr>RGB_colourspaces_cycle := cyc, correlate_colourspace := Some c,
                       gamut_view := Some (g\<lparr>view_correlate_colourspace := Some c\<rparr>)\<rparr>)
                | Some i \<Rightarrow>
                    (Inr True,
                     s\<lparr>RGB_colourspaces_cycle := cyc, correlate_colourspace := Some c,
                       gamut_view := Some (g\<lparr>view_correlate_colourspace := Some c\<rparr>),
                       image_view := Some (i\<lparr>view_correlate_colourspace := Some c\<rparr>)\<rparr>))))"

definition cycle_reference_colourspace_action ::
  "'a analysis \<Rightarrow> (error + bool) \<times> 'a analysis" where
  "cycle_reference_colourspace_action s =
     (case cycle_next (reference_colourspaces_cycle s) of
        Inl e \<Rightarrow> (Inl e, s)
      | Inr (c, cyc) \<Rightarrow>
          (case gamut_view s of
             None \<Rightarrow>
               (Inl (AttributeError ''NoneType object has no attribute reference_colourspace''),
                s\<lparr>reference_colourspaces_cycle := cyc, reference_colourspace := Some c\<rparr>)
           | Some g \<Rightarrow>
               (Inr True,
                s\<lparr>reference_colourspaces_cycle := cyc, reference_colourspace := Some c,
                  gamut_view := Some (g\<lparr>view_reference_colourspace := Some c\<rparr>)\<rparr>)))"

section \<open>Key dispatch\<close>

record key_event =
  ev_key :: string
  ev_modifiers :: "string list"

definition chord_matches :: "key_event \<Rightarrow> Action \<Rightarrow> bool" where
  "chord_matches event a =
     (Some (lower (ev_key event)) = seq_key (action_sequence a) \<and>
      sort (map lower (ev_modifiers event)) = sort (seq_modifiers (action_sequence a)))"

definition method_name :: "Action \<Rightarrow> string" where
  "method_name a = (case action_name a of None \<Rightarrow> ''None'' | Some n \<Rightarrow> n) @ ''_action''"

text \<open>\<^verbatim>\<open>hasattr(self, method) and getattr(self, method)()\<close>: the coordinator defines two
  methods ending in \<^verbatim>\<open>_action\<close>; the result of a handler is dropped.\<close>

definition self_hasattr :: "string \<Rightarrow> bool" where
  "self_hasattr method =
     (method \<in> set [''cycle_correlate_colourspace_action'',
                     ''cycle_reference_colourspace_action''])"

definition invoke_on_self :: "string \<Rightarrow> 'a analysis \<Rightarrow> (error + unit) \<times> 'a analysis" where
  "invoke_on_self method s =
     (if \<not> self_hasattr method then (Inr (), s)
      else if method = ''cycle_correlate_colourspace_action'' then
        (case cycle_correlate_colourspace_action (s\<lparr>calls := calls s @ [(Coordinator, method)]\<rparr>) of
           (Inl e, s') \<Rightarrow> (Inl e, s')
         | (Inr b, s') \<Rightarrow> (Inr (), s'))
      else
        (case cycle_reference_colourspace_action (s\<lparr>calls := calls s @ [(Coordinator, method)]\<rparr>) of
           (Inl e, s') \<Rightarrow> (Inl e, s')
         | (Inr b, s') \<Rightarrow> (Inr (), s')))"

text \<open>\<^verbatim>\<open>for view in self.__views: hasattr(view, method) and getattr(view, method)()\<close>.
  Modelled from the spec: a view's handler takes no argument and returns; what it does
  inside the view is not the coordinator's.\<close>

definition view_hasattr :: "view_id \<Rightarrow> string \<Rightarrow> 'a analysis \<Rightarrow> bool" where
  "view_hasattr v method s =
     (case get_view v s of None \<Rightarrow> False | Some w \<Rightarrow> method \<in> set (view_methods w))"

fun invoke_on_views :: "string \<Rightarrow> view_id list \<Rightarrow> 'a analysis \<Rightarrow> 'a analysis" where
  "invoke_on_views method [] s = s"
| "invoke_on_views method (v # vs) s =
     (if view_hasattr v method s
      then invoke_on_views method vs (s\<lparr>calls := calls s @ [(View v, method)]\<rparr>)
      else invoke_on_views method vs s)"

fun dispatch :: "key_event \<Rightarrow> Action list \<Rightarrow> 'a analysis \<Rightarrow> (error + unit) \<times> 'a analysis" where
  "dispatch event [] s = (Inr (), s)"
| "dispatch event (a # rest) s =
     (if chord_matches event a then
        (case invoke_on_self (method_name a) s of
           (Inl e, s') \<Rightarrow> (Inl e, s')
         | (Inr u, s') \<Rightarrow>
             (case views s' of
                None \<Rightarrow> (Inl (TypeError ''NoneType object is not iterable''), s')
              | Some vs \<Rightarrow> dispatch event rest (invoke_on_views (method_name a) vs s')))
      else dispatch event rest s)"

definition on_key_press :: "key_event \<Rightarrow> 'a analysis \<Rightarrow> (error + unit) \<times> 'a analysis" where
  "on_key_press event s = dispatch event (map snd (actions s)) s"

section \<open>The constructor\<close>

record arguments =
  arg_image_path :: py_value
  arg_input_colourspace :: py_value
  arg_input_oecf :: py_value
  arg_input_linear :: py_value
  arg_input_resample :: py_value
  arg_reference_colourspace :: py_value
  arg_correlate_colourspace :: py_value
  arg_settings :: "settings_doc option"
  arg_layout :: py_value

text \<open>The statements of \<^verbatim>\<open>__init__\<close> run in order; the first one that raises ends it.\<close>

fun run_all :: "('s \<Rightarrow> (error + unit) \<times> 's) list \<Rightarrow> 's \<Rightarrow> (error + unit) \<times> 's" where
  "run_all [] s = (Inr (), s)"
| "run_all (f # fs) s = (case f s of (Inl e, s') \<Rightarrow> (Inl e, s') | (Inr u, s') \<Rightarrow> run_all fs s')"

definition assign_settings :: "settings_doc \<Rightarrow> 'a analysis \<Rightarrow> (error + unit) \<times> 'a analysis" where
  "assign_settings st s = (Inr (), s\<lparr>settings := Some st\<rparr>)"

definition init_steps ::
  "'a env \<Rightarrow> arguments \<Rightarrow> settings_doc \<Rightarrow> ('a analysis \<Rightarrow> (error + unit) \<times> 'a analysis) list" where
  "init_steps env args st =
     [set_image_path env (arg_image_path args),
      set_image (Some (random_image env)),
      set_input_colourspace env (arg_input_colourspace args),
      set_input_oecf env (arg_input_oecf args),
      set_input_linear (arg_input_linear args),
      set_input_resample (arg_input_resample args),
      set_reference_colourspace env (arg_reference_colourspace args),
      set_correlate_colourspace env (arg_correlate_colourspace args),
      assign_settings st,
      set_layout (arg_layout args),
      create_cycles env,
      create_layout_presets,
      create_actions,
      create_image env,
      create_views env,
      layout_views]"

definition init :: "'a env \<Rightarrow> arguments \<Rightarrow> error + 'a analysis" where
  "init env args =
     (case arg_settings args of
        None \<Rightarrow> Inl (TypeError ''NoneType object has no attribute __getitem__'')
      | Some st \<Rightarrow>
          (case run_all (init_steps env args st) new_analysis of
             (Inl e, s) \<Rightarrow> Inl e
           | (Inr u, s) \<Rightarrow> Inr s))"

text \<open>Invoking an action \<open>n\<close> times in a row, as \<open>n\<close> presses of its key do.\<close>

fun invoke_times ::
  "nat \<Rightarrow> ('s \<Rightarrow> (error + bool) \<times> 's) \<Rightarrow> 's \<Rightarrow> error + 's" where
  "invoke_times 0 act s = Inr s"
| "invoke_times (Suc n) act s =
     (case act s of (Inl e, s') \<Rightarrow> Inl e | (Inr b, s') \<Rightarrow> invoke_times n act s')"

section \<open>A concrete run\<close>

text \<open>A small registry, a 3 by 3 image of four channels and a settings document with one
  layout and one action bound to control+g, on which the theorems below are instantiated.\<close>

definition example_image :: "nat list list list" where
  "example_image =
     [[[11, 12, 13, 255], [21, 22, 23, 255], [31, 32, 33, 255]],
      [[41, 42, 43, 255], [51, 52, 53, 255], [61, 62, 63, 255]],
      [[71, 72, 73, 255], [81, 82, 83, 255], [91, 92, 93, 255]]]"

definition example_env :: "nat env" where
  "example_env =
     \<lparr>RGB_COLOURSPACES = [''sRGB'', ''aces'', ''ACEScg'', ''ACES2065-1''],
      REFERENCE_COLOURSPACES = [''CIE XYZ'', ''CIE xyY'', ''CIE Lab''],
      path_exists = (\<lambda>p. p = ''image.exr''),
      read_image =
        (\<lambda>p. if p = Some ''image.exr'' then Inr example_image
             else Inl (ExternalError ''cannot read image'')),
      inverse_transfer_function = (\<lambda>n x. x),
      random_image = [],
      view_class_methods =
        (\<lambda>v. if v = GamutView \<or> v = DiagramView then [''toggle_grid_action''] else [])\<rparr>"

definition example_settings :: settings_doc where
  "example_settings =
     \<lparr>st_layouts =
        [\<lparr>ls_name = ''layout_1'', ls_description = ''Layout 1'',
          ls_views =
            [(''gamut_view'',
              \<lparr>vs_name = ''gamut_view'', vs_description = ''Gamut'', vs_view = ''gamut_view'',
               vs_row = 0, vs_column = 0, vs_row_span = 2, vs_column_span = 2\<rparr>),
             (''console_view'',
              \<lparr>vs_name = ''console_view'', vs_description = ''Console'',
               vs_view = ''console_view'',
               vs_row = 2, vs_column = 0, vs_row_span = 1, vs_column_span = 2\<rparr>)]\<rparr>],
      st_actions =
        Some [(''toggle_grid'',
               \<lparr>as_name = Some ''toggle_grid'', as_description = Some ''Toggle the grid'',
                as_sequence = Some \<lparr>ss_modifiers = Some [''control''], ss_key = Some ''g''\<rparr>\<rparr>)]\<rparr>"

definition example_args :: arguments where
  "example_args =
     \<lparr>arg_image_path = PyStr ''image.exr'',
      arg_input_colourspace = PyStr ''sRGB'',
      arg_input_oecf = PyStr ''sRGB'',
      arg_input_linear = PyBool True,
      arg_input_resample = PyInt 2,
      arg_reference_colourspace = PyStr ''CIE xyY'',
      arg_correlate_colourspace = PyStr ''ACEScg'',
      arg_settings = Some example_settings,
      arg_layout = PyStr ''layout_1''\<rparr>"

definition example_analysis :: "nat analysis" where
  "example_analysis =
     snd (run_all (init_steps example_env example_args example_settings) new_analysis)"


section \<open>Read-only properties\<close>

text \<open>
  C7. Writing to \<^verbatim>\<open>settings\<close>, \<^verbatim>\<open>actions\<close>, \<^verbatim>\<open>console_view\<close>, \<^verbatim>\<open>gamut_view\<close>, \<^verbatim>\<open>image_view\<close> or
  \<^verbatim>\<open>diagram_view\<close> raises, whatever the value and the state: the error is the
  \<^verbatim>\<open>AttributeError\<close> whose message starts with the quoted name of the field, and the object
  is left exactly as it was.
\<close>

theorem read_only_setters_raise:
  "set_settings v s = (Inl (AttributeError (quoted ''settings'' @ '' attribute is read only!'')), s)
   \<and> set_actions v s = (Inl (AttributeError (quoted ''actions'' @ '' attribute is read only!'')), s)
   \<and> set_console_view v s =
       (Inl (AttributeError (quoted ''console_view'' @ '' attribute is read only!'')), s)
   \<and> set_gamut_view v s =
       (Inl (AttributeError (quoted ''gamut_view'' @ '' attribute is read only!'')), s)
   \<and> set_image_view v s =
       (Inl (AttributeError (quoted ''image_view'' @ '' attribute is read only!'')), s)
   \<and> set_diagram_view v s =
       (Inl (AttributeError (quoted ''diagram_view'' @ '' attribute is read only!'')), s)"
  by (simp add: set_settings_def set_actions_def set_console_view_def set_gamut_view_def
      set_image_view_def set_diagram_view_def read_only_message_def)


section \<open>The concrete run, evaluated\<close>

lemma example_analysis_eq:
  "example_analysis =
      \<lparr>image_path = Some ''image.exr'',
       image_data = Some [[[11, 12, 13], [31, 32, 33]], [[71, 72, 73], [91, 92, 93]]],
       input_colourspace = Some ''sRGB'', input_oecf = Some ''sRGB'',
       input_linear = Some True, input_resample = Some 2,
       reference_colourspace = Some ''CIE xyY'',
       correlate_colourspace = Some ''ACEScg'',
       settings = Some example_settings,
       layout = Some ''layout_1'',
       layout_presets =
         [(''layout_1'',
           LayoutPreset ''layout_1'' ''Layout 1''
            [(''gamut_view'', ViewPreset ''gamut_view'' ''Gamut'' ''gamut_view'' 0 0 2 2),
             (''console_view'',
              ViewPreset ''console_view'' ''Console'' ''console_view'' 2 0 1 2)])],
       actions =
         [(''toggle_grid'',
           Action (Some ''toggle_grid'') (Some ''Toggle the grid'')
            (Sequence [''control''] (Some ''g'')))],
       console_view =
         Some \<lparr>view_methods = [], view_correlate_colourspace = None,
               view_reference_colourspace = None\<rparr>,
       gamut_view =
         Some \<lparr>view_methods = [''toggle_grid_action''],
               view_correlate_colourspace = Some ''ACEScg'',
               view_reference_colourspace = Some ''CIE xyY''\<rparr>,
       image_view =
         Some \<lparr>view_methods = [], view_correlate_colourspace = Some ''ACEScg'',
               view_reference_colourspace = None\<rparr>,
       diagram_view =
         Some \<lparr>view_methods = [''toggle_grid_action''],
               view_correlate_colourspace = Some ''ACEScg'',
               view_reference_colourspace = None\<rparr>,
       views = Some [ConsoleView, GamutView, ImageView],
       grid =
         Some [\<lparr>pl_widget = GamutView, pl_row = 0, pl_col = 0, pl_row_span = 2,
                pl_col_span = 2\<rparr>,
               \<lparr>pl_widget = ConsoleView, pl_row = 2, pl_col = 0, pl_row_span = 1,
                pl_col_span = 2\<rparr>],
       RGB_colourspaces_cycle = Cycle [''ACES2065-1'', ''ACEScg'', ''sRGB''] 0,
       reference_colourspaces_cycle = Cycle [''CIE Lab'', ''CIE XYZ'', ''CIE xyY''] 0,
       calls = []\<rparr>"
  by (simp add: example_analysis_def init_steps_def example_env_def example_args_def example_settings_def
      new_analysis_def rgb_contains_def lower_def lower_char_def set_image_path_def set_image_def
      set_input_colourspace_def
      set_input_oecf_def set_input_linear_def set_input_resample_def
      set_reference_colourspace_def set_correlate_colourspace_def assign_settings_def
      set_layout_def create_cycles_def correlate_candidates_def deque_rotate_def
      create_layout_presets_def layout_preset_of_def view_preset_of_def
      create_actions_def action_of_def sequence_of_def create_image_def linearise_def
      keep_rgb_def resample_def strided_def example_image_def create_views_def
      layout_views_def resolve_layout_def widget_named_def placement_of_def
      numeral_2_eq_2 rotate1_def)

lemma example_run:
  "run_all (init_steps example_env example_args example_settings) new_analysis
     = (Inr (), example_analysis)"
  by (simp add: example_analysis_eq init_steps_def example_env_def example_args_def example_settings_def
      new_analysis_def rgb_contains_def lower_def lower_char_def set_image_path_def set_image_def
      set_input_colourspace_def
      set_input_oecf_def set_input_linear_def set_input_resample_def
      set_reference_colourspace_def set_correlate_colourspace_def assign_settings_def
      set_layout_def create_cycles_def correlate_candidates_def deque_rotate_def
      create_layout_presets_def layout_preset_of_def view_preset_of_def
      create_actions_def action_of_def sequence_of_def create_image_def linearise_def
      keep_rgb_def resample_def strided_def example_image_def create_views_def
      layout_views_def resolve_layout_def widget_named_def placement_of_def
      numeral_2_eq_2 rotate1_def)

lemma example_init: "init example_env example_args = Inr example_analysis"
proof -
  have "arg_settings example_args = Some example_settings"
    by (simp add: example_args_def)
  then show ?thesis
    by (simp add: init_def example_run)
qed

section \<open>The image pipeline\<close>


lemma every_nth_one: "every_nth (Suc 0) xs = xs"
  by (induction xs) auto

lemma length_every_nth: "0 < n \<Longrightarrow> length (every_nth n xs) = (length xs + n - 1) div n"
proof (induction n xs rule: every_nth.induct)
  case (1 n)
  then show ?case by simp
next
  case (2 n x xs)
  show ?case
  proof (cases "n - 1 \<le> length xs")
    case True
    with 2 have "length (every_nth n (x # xs)) = Suc ((length xs - (n - 1) + n - 1) div n)"
      by simp
    also from True 2(2) have "length xs - (n - 1) + n - 1 = length xs" by arith
    also from 2(2) have "Suc (length xs div n) = (length (x # xs) + n - 1) div n"
      by (simp add: div_add_self2)
    finally show ?thesis .
  next
    case False
    with 2 have "length (every_nth n (x # xs)) = Suc ((n - 1) div n)" by simp
    also from 2(2) have "(n - 1) div n = 0" by simp
    also from False 2(2) have "Suc 0 = (length (x # xs) + n - 1) div n"
      by (simp add: div_add_self2)
    finally show ?thesis .
  qed
qed

lemma nth_every_nth:
  "0 < n \<Longrightarrow> i < length (every_nth n xs) \<Longrightarrow> every_nth n xs ! i = xs ! (i * n)"
proof (induction n xs arbitrary: i rule: every_nth.induct)
  case (1 n)
  then show ?case by simp
next
  case (2 n x xs)
  show ?case
  proof (cases i)
    case 0
    then show ?thesis by simp
  next
    case (Suc j)
    with 2 have j: "j < length (every_nth n (drop (n - 1) xs))" by simp
    then have ne: "drop (n - 1) xs \<noteq> []" by auto
    from 2(1)[OF 2(2) j] have "every_nth n (drop (n - 1) xs) ! j = drop (n - 1) xs ! (j * n)" .
    also from ne have "\<dots> = xs ! (n - 1 + j * n)" by simp
    finally show ?thesis using Suc 2(2) by (simp add: nth_Cons')
  qed
qed

lemma set_every_nth: "set (every_nth n xs) \<subseteq> set xs"
proof (induction n xs rule: every_nth.induct)
  case (1 n)
  then show ?case by simp
next
  case (2 n x xs)
  have "set (drop (n - 1) xs) \<subseteq> set xs" by (rule set_drop_subset)
  with 2 show ?case by auto
qed

lemma set_strided: "set (strided k xs) \<subseteq> set xs"
  using set_every_nth[of _ xs] set_every_nth[of _ "rev xs"] by (auto simp: strided_def)


lemma shape_linearise:
  "linearise env s img = Inr lin \<Longrightarrow>
     length lin = length img \<and> (\<forall>i < length img. length (lin ! i) = length (img ! i))"
  by (auto simp: linearise_def split: if_splits option.splits)

lemma length_keep_rgb: "length (keep_rgb img) = length img"
  by (simp add: keep_rgb_def)

lemma nth_keep_rgb: "i < length img \<Longrightarrow> keep_rgb img ! i = map (take 3) (img ! i)"
  by (simp add: keep_rgb_def)

lemma strided_one: "strided 1 xs = xs"
  by (simp add: strided_def every_nth_one)

lemma map_strided_one: "map (strided 1) xs = xs"
  by (induction xs) (simp_all add: strided_one)

lemma length_strided: "0 < n \<Longrightarrow> length (strided (int n) xs) = (length xs + n - 1) div n"
  by (simp add: strided_def length_every_nth)

lemma nth_strided:
  "0 < n \<Longrightarrow> i < length (strided (int n) xs) \<Longrightarrow> strided (int n) xs ! i = xs ! (n * i)"
  by (simp add: strided_def nth_every_nth mult.commute)

lemma strided_index_bound:
  fixes n i m :: nat
  assumes "0 < n" "i < (m + n - 1) div n"
  shows "n * i < m"
proof -
  from assms(2) have "Suc i \<le> (m + n - 1) div n" by simp
  then have "n * Suc i \<le> n * ((m + n - 1) div n)" by (rule mult_le_mono2)
  also have "\<dots> \<le> m + n - 1" by simp
  finally have "n * i + n \<le> m + n - 1" by simp
  with assms(1) show ?thesis by arith
qed

text \<open>
  C8. Once the image is decoded and linearised, the pipeline with resample factor \<open>n \<ge> 1\<close>
  succeeds and stores an image with \<open>\<lceil>h / n\<rceil>\<close> rows of \<open>\<lceil>w / n\<rceil>\<close> pixels: pixel \<open>(i, j)\<close> of the
  result is the first three channels of pixel \<open>(n i, n j)\<close> of the linearised image. With
  factor 1 the stored image is the whole image with its channels cut to three, so its
  height and the width of every row are the decoded image's; with factor 2 each dimension
  is the ceiling of half.
\<close>

theorem resample_dimensions:
  assumes dec: "read_image env (image_path s) = Inr decoded"
    and lin: "linearise env s decoded = Inr lin"
    and r: "input_resample s = Some (int n)"
    and n: "0 < n"
  shows "\<exists>img. create_image env s = (Inr (), s\<lparr>image_data := Some img\<rparr>)
           \<and> length img = (length decoded + n - 1) div n
           \<and> (\<forall>i < length img.
                 length (img ! i) = (length (decoded ! (n * i)) + n - 1) div n
                 \<and> (\<forall>j < length (img ! i). img ! i ! j = take 3 (lin ! (n * i) ! (n * j))))
           \<and> (n = 1 \<longrightarrow> img = keep_rgb lin \<and> length img = length decoded
                 \<and> (\<forall>i < length decoded. length (img ! i) = length (decoded ! i)))
           \<and> (n = 2 \<longrightarrow> length img = (length decoded + 1) div 2
                 \<and> (\<forall>i < length img.
                        length (img ! i) = (length (decoded ! (2 * i)) + 1) div 2))"
proof -
  let ?img = "map (strided (int n)) (strided (int n) (keep_rgb lin))"
  note shape = shape_linearise[OF lin]
  from r dec lin n have c: "create_image env s = (Inr (), s\<lparr>image_data := Some ?img\<rparr>)"
    by (simp add: create_image_def resample_def)
  from shape n have len: "length ?img = (length decoded + n - 1) div n"
    by (simp add: length_strided length_keep_rgb)
  have rows: "length (?img ! i) = (length (decoded ! (n * i)) + n - 1) div n
      \<and> (\<forall>j < length (?img ! i). ?img ! i ! j = take 3 (lin ! (n * i) ! (n * j)))"
    if i: "i < length ?img" for i
  proof -
    from i have i': "i < length (strided (int n) (keep_rgb lin))" by simp
    with n have "i < (length lin + n - 1) div n"
      by (simp add: length_strided length_keep_rgb)
    with n have i2: "n * i < length lin" by (rule strided_index_bound)
    from i' n i2 have row: "?img ! i = strided (int n) (map (take 3) (lin ! (n * i)))"
      by (simp add: nth_strided nth_keep_rgb)
    from i2 shape have "length (lin ! (n * i)) = length (decoded ! (n * i))"
      by simp
    with row n have l: "length (?img ! i) = (length (decoded ! (n * i)) + n - 1) div n"
      by (simp add: length_strided)
    have "?img ! i ! j = take 3 (lin ! (n * i) ! (n * j))" if j: "j < length (?img ! i)" for j
    proof -
      from j row have j': "j < length (strided (int n) (map (take 3) (lin ! (n * i))))" by simp
      with n have "j < (length (lin ! (n * i)) + n - 1) div n" by (simp add: length_strided)
      with n have "n * j < length (lin ! (n * i))" by (rule strided_index_bound)
      with j' row n show ?thesis by (simp add: nth_strided)
    qed
    with l show ?thesis by blast
  qed
  have one: "?img = keep_rgb lin \<and> length ?img = length decoded
      \<and> (\<forall>i < length decoded. length (?img ! i) = length (decoded ! i))" if "n = 1"
    using that shape by (simp add: strided_one map_strided_one length_keep_rgb nth_keep_rgb)
  have two: "length ?img = (length decoded + 1) div 2
      \<and> (\<forall>i < length ?img. length (?img ! i) = (length (decoded ! (2 * i)) + 1) div 2)"
    if "n = 2"
    using that len rows by simp
  from c len rows one two show ?thesis by blast
qed

theorem resample_dimensions_witness:
  "read_image example_env (image_path example_analysis) = Inr example_image
   \<and> linearise example_env example_analysis example_image = Inr example_image
   \<and> input_resample example_analysis = Some (int 2)
   \<and> (\<exists>img. create_image example_env example_analysis
                = (Inr (), example_analysis\<lparr>image_data := Some img\<rparr>)
          \<and> length img = 2 \<and> length (img ! 0) = 2
          \<and> img ! 1 ! 1 = take 3 (example_image ! 2 ! 2))"
proof -
  have dec: "read_image example_env (image_path example_analysis) = Inr example_image"
    by (simp add: example_analysis_eq example_env_def)
  have lin: "linearise example_env example_analysis example_image = Inr example_image"
    by (simp add: example_analysis_eq linearise_def)
  have r: "input_resample example_analysis = Some (int 2)"
    by (simp add: example_analysis_eq)
  have len: "length example_image = 3" "length (example_image ! 0) = 3"
    "length (example_image ! 2) = 3"
    by (simp_all add: example_image_def)
  from resample_dimensions[OF dec lin r] len
  obtain img where img: "create_image example_env example_analysis
        = (Inr (), example_analysis\<lparr>image_data := Some img\<rparr>)"
      "length img = 2"
      "\<forall>i<length img. length (img ! i) = (length (example_image ! (2 * i)) + 2 - 1) div 2
          \<and> (\<forall>j<length (img ! i). img ! i ! j = take 3 (example_image ! (2 * i) ! (2 * j)))"
    by auto
  from img(2,3) len have "length (img ! 0) = 2" by simp
  moreover from img(2,3) len have "img ! 1 ! 1 = take 3 (example_image ! 2 ! 2)" by simp
  ultimately show ?thesis using dec lin r img(1,2) by auto
qed

section \<open>The image buffer invariant\<close>

lemma pixels_resample:
  assumes "resample step img = Inr out" "row \<in> set out" "px \<in> set row"
  shows "\<exists>row' \<in> set img. px \<in> set row'"
proof (cases step)
  case None
  with assms show ?thesis by (auto simp: resample_def)
next
  case (Some k)
  with assms have out: "out = map (strided k) (strided k img)"
    by (auto simp: resample_def split: if_splits)
  with assms(2) obtain row' where "row' \<in> set (strided k img)" "row = strided k row'"
    by auto
  with assms(3) set_strided[of k img] set_strided[of k row'] show ?thesis by blast
qed

lemma pixels_linearise:
  assumes "linearise env s img = Inr lin" "row \<in> set lin" "px \<in> set row"
  shows "\<exists>row' \<in> set img. \<exists>px' \<in> set row'. length px = length px'"
proof (cases "input_linear s = Some True")
  case True
  with assms show ?thesis by (auto simp: linearise_def)
next
  case False
  with assms obtain oecf where
    lin: "lin = map (map (map (inverse_transfer_function env oecf))) img"
    by (auto simp: linearise_def split: option.splits if_splits)
  with assms(2) obtain row' where r: "row' \<in> set img"
    "row = map (map (inverse_transfer_function env oecf)) row'"
    by auto
  with assms(3) obtain px' where "px' \<in> set row'" "px = map (inverse_transfer_function env oecf) px'"
    by auto
  with r(1) show ?thesis by (intro bexI[of _ row'] bexI[of _ px']) simp_all
qed

lemma create_image_pixels:
  assumes "create_image env s = (Inr (), s')"
  shows "\<exists>decoded lin img. read_image env (image_path s) = Inr decoded
           \<and> linearise env s decoded = Inr lin
           \<and> resample (input_resample s) (map (map (take 3)) lin) = Inr img
           \<and> s' = s\<lparr>image_data := Some img\<rparr>
           \<and> (\<forall>row \<in> set img. \<forall>px \<in> set row. \<exists>row' \<in> set lin. \<exists>p \<in> set row'. px = take 3 p)"
proof -
  from assms obtain decoded lin img where
    d: "read_image env (image_path s) = Inr decoded"
    and l: "linearise env s decoded = Inr lin"
    and r: "resample (input_resample s) (keep_rgb lin) = Inr img"
    and s': "s' = s\<lparr>image_data := Some img\<rparr>"
    by (auto simp: create_image_def split: sum.splits)
  have "\<exists>row' \<in> set lin. \<exists>p \<in> set row'. px = take 3 p"
    if "row \<in> set img" "px \<in> set row" for row px
  proof -
    from pixels_resample[OF r that] obtain krow where k: "krow \<in> set (keep_rgb lin)" "px \<in> set krow"
      by blast
    then obtain lrow lpx where lp: "lrow \<in> set lin" "lpx \<in> set lrow" "px = take 3 lpx"
      by (auto simp: keep_rgb_def)
    then show ?thesis by blast
  qed
  with d l r s' show ?thesis by (auto simp: keep_rgb_def)
qed

text \<open>
  C9, as the code has it. A successful load stores the decimation of the linearised image
  with every pixel cut to its first three channels. So every stored pixel is the first
  three channels of a pixel of the linearised image: a pixel of more than three channels
  loses those beyond the third, a pixel of three or fewer is kept whole, and the stored
  pixels have exactly three channels when every decoded pixel has three or more. The
  \<^verbatim>\<open>input_resample\<close> setter checks the type only: when it succeeds the field is \<^verbatim>\<open>None\<close> or the
  integer given, whatever its sign, and it succeeds on every integer.
\<close>

theorem image_buffer_invariant:
  "(create_image env s = (Inr (), s') \<longrightarrow>
      (\<exists>decoded lin img. read_image env (image_path s) = Inr decoded
         \<and> linearise env s decoded = Inr lin
         \<and> resample (input_resample s) (map (map (take 3)) lin) = Inr img
         \<and> s' = s\<lparr>image_data := Some img\<rparr>
         \<and> (\<forall>row \<in> set img. \<forall>px \<in> set row. \<exists>row' \<in> set lin. \<exists>p \<in> set row'.
               px = take 3 p \<and> length px = min (length p) 3 \<and> (length p \<le> 3 \<longrightarrow> px = p))
         \<and> (\<forall>row \<in> set img. \<forall>px \<in> set row. length px \<le> 3)
         \<and> ((\<forall>row \<in> set decoded. \<forall>px \<in> set row. 3 \<le> length px) \<longrightarrow>
              (\<forall>row \<in> set img. \<forall>px \<in> set row. length px = 3))))
   \<and> (set_input_resample v t = (Inr (), t') \<longrightarrow>
        (v = PyNone \<and> t' = t\<lparr>input_resample := None\<rparr>)
        \<or> (\<exists>i. v = PyInt i \<and> t' = t\<lparr>input_resample := Some i\<rparr>))
   \<and> set_input_resample (PyInt i) t = (Inr (), t\<lparr>input_resample := Some i\<rparr>)"
proof (intro conjI impI)
  assume "create_image env s = (Inr (), s')"
  from create_image_pixels[OF this] obtain decoded lin img where
    d: "read_image env (image_path s) = Inr decoded"
    and l: "linearise env s decoded = Inr lin"
    and r: "resample (input_resample s) (map (map (take 3)) lin) = Inr img"
    and s': "s' = s\<lparr>image_data := Some img\<rparr>"
    and px: "\<forall>row \<in> set img. \<forall>px \<in> set row. \<exists>row' \<in> set lin. \<exists>p \<in> set row'. px = take 3 p"
    by blast
  have first: "\<forall>row \<in> set img. \<forall>px \<in> set row. \<exists>row' \<in> set lin. \<exists>p \<in> set row'.
               px = take 3 p \<and> length px = min (length p) 3 \<and> (length p \<le> 3 \<longrightarrow> px = p)"
  proof (intro ballI)
    fix row px assume "row \<in> set img" "px \<in> set row"
    with px obtain row' p where p: "row' \<in> set lin" "p \<in> set row'" "px = take 3 p"
      by blast
    then have "px = take 3 p \<and> length px = min (length p) 3 \<and> (length p \<le> 3 \<longrightarrow> px = p)"
      by simp
    with p(1,2) show "\<exists>row' \<in> set lin. \<exists>p \<in> set row'.
               px = take 3 p \<and> length px = min (length p) 3 \<and> (length p \<le> 3 \<longrightarrow> px = p)"
      by blast
  qed
  from px have le: "\<forall>row \<in> set img. \<forall>px \<in> set row. length px \<le> 3"
    by fastforce
  have eq: "(\<forall>row \<in> set decoded. \<forall>px \<in> set row. 3 \<le> length px) \<longrightarrow>
      (\<forall>row \<in> set img. \<forall>px \<in> set row. length px = 3)"
  proof (intro impI ballI)
    fix row px
    assume all: "\<forall>row \<in> set decoded. \<forall>px \<in> set row. 3 \<le> length px"
      and "row \<in> set img" "px \<in> set row"
    with px obtain row' p where p: "row' \<in> set lin" "p \<in> set row'" "px = take 3 p"
      by blast
    from pixels_linearise[OF l p(1,2)] obtain drow dpx where
      "drow \<in> set decoded" "dpx \<in> set drow" "length p = length dpx"
      by blast
    with all have "3 \<le> length p" by auto
    with p(3) show "length px = 3" by simp
  qed
  from d l r s' first le eq
  show "\<exists>decoded lin img. read_image env (image_path s) = Inr decoded
         \<and> linearise env s decoded = Inr lin
         \<and> resample (input_resample s) (map (map (take 3)) lin) = Inr img
         \<and> s' = s\<lparr>image_data := Some img\<rparr>
         \<and> (\<forall>row \<in> set img. \<forall>px \<in> set row. \<exists>row' \<in> set lin. \<exists>p \<in> set row'.
               px = take 3 p \<and> length px = min (length p) 3 \<and> (length p \<le> 3 \<longrightarrow> px = p))
         \<and> (\<forall>row \<in> set img. \<forall>px \<in> set row. length px \<le> 3)
         \<and> ((\<forall>row \<in> set decoded. \<forall>px \<in> set row. 3 \<le> length px) \<longrightarrow>
              (\<forall>row \<in> set img. \<forall>px \<in> set row. length px = 3))"
    by blast
next
  assume "set_input_resample v t = (Inr (), t')"
  then show "(v = PyNone \<and> t' = t\<lparr>input_resample := None\<rparr>)
        \<or> (\<exists>i. v = PyInt i \<and> t' = t\<lparr>input_resample := Some i\<rparr>)"
    by (cases v) (auto simp: set_input_resample_def)
next
  show "set_input_resample (PyInt i) t = (Inr (), t\<lparr>input_resample := Some i\<rparr>)"
    by (simp add: set_input_resample_def)
qed

theorem image_buffer_invariant_witness:
  "create_image example_env example_analysis = (Inr (), example_analysis)
   \<and> (\<exists>img. image_data example_analysis = Some img
          \<and> resample (Some 2) (map (map (take 3)) example_image) = Inr img
          \<and> (\<forall>row \<in> set img. \<forall>px \<in> set row. length px = 3))
   \<and> set_input_resample (PyInt 2) example_analysis = (Inr (), example_analysis)"
proof -
  have c: "create_image example_env example_analysis = (Inr (), example_analysis)"
    by (simp add: example_analysis_eq create_image_def example_env_def linearise_def
        keep_rgb_def resample_def strided_def example_image_def numeral_2_eq_2)
  have r: "set_input_resample (PyInt 2) example_analysis = (Inr (), example_analysis)"
    by (simp add: example_analysis_eq set_input_resample_def)
  have d: "read_image example_env (image_path example_analysis) = Inr example_image"
    by (simp add: example_analysis_eq example_env_def)
  have l: "linearise example_env example_analysis example_image = Inr example_image"
    by (simp add: example_analysis_eq linearise_def)
  have n: "input_resample example_analysis = Some 2"
    by (simp add: example_analysis_eq)
  have ch: "\<forall>row \<in> set example_image. \<forall>px \<in> set row. 3 \<le> length px"
    by (simp add: example_image_def)
  from image_buffer_invariant[of example_env example_analysis example_analysis
      "PyInt 2" example_analysis example_analysis 2] c
  obtain decoded lin img where
    w: "read_image example_env (image_path example_analysis) = Inr decoded"
       "linearise example_env example_analysis decoded = Inr lin"
       "resample (input_resample example_analysis) (map (map (take 3)) lin) = Inr img"
       "example_analysis = example_analysis\<lparr>image_data := Some img\<rparr>"
       "(\<forall>row \<in> set decoded. \<forall>px \<in> set row. 3 \<le> length px) \<longrightarrow>
              (\<forall>row \<in> set img. \<forall>px \<in> set row. length px = 3)"
    by blast
  from w(1) d have "decoded = example_image" by simp
  with w(2) l have "lin = example_image" by simp
  from w(4) have "image_data example_analysis = Some img"
    by (metis analysis.select_convs(2) analysis.surjective analysis.update_convs(2))
  with w(3,5) n ch \<open>decoded = example_image\<close> \<open>lin = example_image\<close>
  have "\<exists>img. image_data example_analysis = Some img
          \<and> resample (Some 2) (map (map (take 3)) example_image) = Inr img
          \<and> (\<forall>row \<in> set img. \<forall>px \<in> set row. length px = 3)"
    by auto
  with c r show ?thesis by blast
qed

text \<open>
  The claim as stated fails twice: the setter accepts the resample factor 0, and a decoded
  image of one channel keeps its one channel.
\<close>

theorem image_buffer_invariant_counterexample:
  "set_input_resample (PyInt 0) example_analysis
     = (Inr (), example_analysis\<lparr>input_resample := Some 0\<rparr>)
   \<and> create_image (example_env\<lparr>read_image := \<lambda>p. Inr [[[7]]]\<rparr>) example_analysis
     = (Inr (), example_analysis\<lparr>image_data := Some [[[7]]]\<rparr>)"
  by (simp add: set_input_resample_def example_analysis_eq create_image_def linearise_def
      keep_rgb_def resample_def strided_def example_env_def numeral_2_eq_2)

section \<open>Validated colour space properties\<close>

lemma join_mentions: "x \<in> set xs \<Longrightarrow> \<exists>pre post. join sep xs = pre @ x @ post"
proof (induction sep xs rule: join.induct)
  case (1 sep)
  then show ?case by simp
next
  case (2 sep y)
  then have "join sep [y] = [] @ x @ []" by simp
  then show ?case by blast
next
  case (3 sep y z zs)
  show ?case
  proof (cases "x = y")
    case True
    then have "join sep (y # z # zs) = [] @ x @ (sep @ join sep (z # zs))" by simp
    then show ?thesis by blast
  next
    case False
    with 3 obtain pre post where "join sep (z # zs) = pre @ x @ post" by auto
    then have "join sep (y # z # zs) = (y @ sep @ pre) @ x @ post" by simp
    then show ?thesis by blast
  qed
qed

lemma message_mentions:
  assumes "msg = a @ quoted (join sep (sort names)) @ b"
  shows "\<forall>k \<in> set names. \<exists>pre post. msg = pre @ k @ post"
proof
  fix k assume "k \<in> set names"
  then have "k \<in> set (sort names)" by simp
  from join_mentions[OF this] obtain pre post where "join sep (sort names) = pre @ k @ post"
    by blast
  with assms have "msg = (a @ [CHR 0x22] @ pre) @ k @ (post @ [CHR 0x22] @ b)"
    by (simp add: quoted_def)
  then show "\<exists>pre post. msg = pre @ k @ post" by blast
qed

text \<open>
  The three setters checked against \<^verbatim>\<open>RGB_COLOURSPACES\<close> do what C5 says: a name of the
  registry is stored as it was given, and a name outside it raises the assertion error
  whose message contains every key of the registry, the object staying as it was.
\<close>

lemma rgb_setters_validate:
  assumes "rgb_contains env n" and "\<not> rgb_contains env m"
  shows "set_input_colourspace env (PyStr n) s = (Inr (), s\<lparr>input_colourspace := Some n\<rparr>)
    \<and> set_input_oecf env (PyStr n) s = (Inr (), s\<lparr>input_oecf := Some n\<rparr>)
    \<and> set_correlate_colourspace env (PyStr n) s = (Inr (), s\<lparr>correlate_colourspace := Some n\<rparr>)
    \<and> (\<exists>msg. set_input_colourspace env (PyStr m) s = (Inl (AssertionError msg), s)
          \<and> (\<forall>k \<in> set (RGB_COLOURSPACES env). \<exists>pre post. msg = pre @ k @ post))
    \<and> (\<exists>msg. set_input_oecf env (PyStr m) s = (Inl (AssertionError msg), s)
          \<and> (\<forall>k \<in> set (RGB_COLOURSPACES env). \<exists>pre post. msg = pre @ k @ post))
    \<and> (\<exists>msg. set_correlate_colourspace env (PyStr m) s = (Inl (AssertionError msg), s)
          \<and> (\<forall>k \<in> set (RGB_COLOURSPACES env). \<exists>pre post. msg = pre @ k @ post))"
proof -
  have ok: "set_input_colourspace env (PyStr n) s = (Inr (), s\<lparr>input_colourspace := Some n\<rparr>)"
    "set_input_oecf env (PyStr n) s = (Inr (), s\<lparr>input_oecf := Some n\<rparr>)"
    "set_correlate_colourspace env (PyStr n) s = (Inr (), s\<lparr>correlate_colourspace := Some n\<rparr>)"
    using assms(1)
    by (simp_all add: set_input_colourspace_def set_input_oecf_def
        set_correlate_colourspace_def)
  have bad1: "\<exists>msg. set_input_colourspace env (PyStr m) s = (Inl (AssertionError msg), s)
          \<and> (\<forall>k \<in> set (RGB_COLOURSPACES env). \<exists>pre post. msg = pre @ k @ post)"
  proof -
    let ?msg = "(quoted m @ '' colourspace not found in factory RGB colourspaces: '')
        @ quoted (join '', '' (sort (RGB_COLOURSPACES env))) @ ''.''"
    from assms(2) have "set_input_colourspace env (PyStr m) s = (Inl (AssertionError ?msg), s)"
      by (simp add: set_input_colourspace_def)
    moreover have "\<forall>k \<in> set (RGB_COLOURSPACES env). \<exists>pre post. ?msg = pre @ k @ post"
      by (rule message_mentions) (rule refl)
    ultimately show ?thesis by blast
  qed
  have bad2: "\<exists>msg. set_input_oecf env (PyStr m) s = (Inl (AssertionError msg), s)
          \<and> (\<forall>k \<in> set (RGB_COLOURSPACES env). \<exists>pre post. msg = pre @ k @ post)"
  proof -
    let ?msg = "(quoted m @ '' OECF is not associated with any factory RGB colourspaces: '')
        @ quoted (join '', '' (sort (RGB_COLOURSPACES env))) @ ''.''"
    from assms(2) have "set_input_oecf env (PyStr m) s = (Inl (AssertionError ?msg), s)"
      by (simp add: set_input_oecf_def)
    moreover have "\<forall>k \<in> set (RGB_COLOURSPACES env). \<exists>pre post. ?msg = pre @ k @ post"
      by (rule message_mentions) (rule refl)
    ultimately show ?thesis by blast
  qed
  have bad3: "\<exists>msg. set_correlate_colourspace env (PyStr m) s = (Inl (AssertionError msg), s)
          \<and> (\<forall>k \<in> set (RGB_COLOURSPACES env). \<exists>pre post. msg = pre @ k @ post)"
  proof -
    let ?msg = "(quoted m @ '' colourspace not found in factory RGB colourspaces: '')
        @ quoted (join '', '' (sort (RGB_COLOURSPACES env))) @ ''.''"
    from assms(2) have "set_correlate_colourspace env (PyStr m) s = (Inl (AssertionError ?msg), s)"
      by (simp add: set_correlate_colourspace_def)
    moreover have "\<forall>k \<in> set (RGB_COLOURSPACES env). \<exists>pre post. ?msg = pre @ k @ post"
      by (rule message_mentions) (rule refl)
    ultimately show ?thesis by blast
  qed
  from ok bad1 bad2 bad3 show ?thesis by simp
qed

text \<open>
  C5 fails on the fourth field. Assigning to \<^verbatim>\<open>reference_colourspace\<close> a name that is not in
  \<^verbatim>\<open>REFERENCE_COLOURSPACES\<close> raises, but not the assertion error that lists the valid names:
  building that message calls \<^verbatim>\<open>.keys()\<close> on the sequence, and the attribute error of that
  call is what the caller gets. In the concrete run \<^verbatim>\<open>CIE Luv\<close> is not a reference colour
  space; the same assignment to \<^verbatim>\<open>correlate_colourspace\<close> of a name outside its registry gives
  the assertion error with the names. Either way the object is unchanged.
\<close>

theorem reference_setter_attribute_error:
  "''CIE Luv'' \<notin> set (REFERENCE_COLOURSPACES example_env)
   \<and> set_reference_colourspace example_env (PyStr ''CIE Luv'') example_analysis
       = (Inl (AttributeError ''tuple object has no attribute keys''), example_analysis)
   \<and> set_reference_colourspace example_env (PyStr ''CIE Lab'') example_analysis
       = (Inr (), example_analysis\<lparr>reference_colourspace := Some ''CIE Lab''\<rparr>)
   \<and> set_correlate_colourspace example_env (PyStr ''Rec. 709'') example_analysis
       = (Inl (AssertionError
            (quoted ''Rec. 709'' @ '' colourspace not found in factory RGB colourspaces: ''
              @ quoted ''ACES2065-1, ACEScg, aces, sRGB'' @ ''.'')), example_analysis)"
  by (simp add: set_reference_colourspace_def set_correlate_colourspace_def example_env_def
      rgb_contains_def lower_def lower_char_def)

section \<open>Registered actions without a key sequence\<close>

lemma foldl_update_snoc:
  "foldl (\<lambda>acc (n, x). AList.update n (f x) acc) acc0 (es @ [(k, a)])
     = AList.update k (f a) (foldl (\<lambda>acc (n, x). AList.update n (f x) acc) acc0 es)"
  by simp

lemma map_of_foldl_update:
  "distinct (map fst es) \<Longrightarrow> (k, a) \<in> set es \<Longrightarrow>
     map_of (foldl (\<lambda>acc (n, x). AList.update n (f x) acc) acc0 es) k = Some (f a)"
proof (induction es rule: rev_induct)
  case Nil
  then show ?case by simp
next
  case (snoc e es)
  obtain n x where e: "e = (n, x)" by (cases e)
  show ?case
  proof (cases "(k, a) = (n, x)")
    case True
    with e show ?thesis by (simp add: update_conv')
  next
    case False
    with snoc.prems e have in_es: "(k, a) \<in> set es" by auto
    then have "k \<in> fst ` set es" by force
    with snoc.prems(1) e have "k \<noteq> n" by auto
    moreover from snoc.prems(1) have "distinct (map fst es)" by simp
    ultimately show ?thesis using snoc.IH in_es e by (simp add: update_conv')
  qed
qed

lemma dispatch_no_key:
  "(\<forall>b \<in> set bs. seq_key (action_sequence b) = None) \<Longrightarrow> dispatch event bs t = (Inr (), t)"
  by (induction bs) (simp_all add: chord_matches_def)

text \<open>
  C10. A settings entry without \<^verbatim>\<open>sequence\<close> is registered under its name as an action with
  no modifiers and the key \<^verbatim>\<open>None\<close>. The normalised key of an event is a string, so no event
  matches that action; and a dispatch over actions that all lack a key invokes nothing and
  leaves the object as it is.
\<close>

theorem action_without_sequence_never_matches:
  assumes "settings s = Some st" and "st_actions st = Some entries"
    and "distinct (map fst entries)" and "(name, a) \<in> set entries"
    and "as_sequence a = None"
  shows "(\<exists>s'. create_actions s = (Inr (), s')
            \<and> map_of (actions s') name
                = Some (Action (as_name a) (as_description a) (Sequence [] None)))
       \<and> \<not> chord_matches event (Action (as_name a) (as_description a) (Sequence [] None))
       \<and> ((\<forall>b \<in> set bs. seq_key (action_sequence b) = None) \<longrightarrow>
             dispatch event bs t = (Inr (), t))"
proof -
  from assms(5) have a: "action_of a = Action (as_name a) (as_description a) (Sequence [] None)"
    by (simp add: action_of_def sequence_of_def)
  from map_of_foldl_update[OF assms(3,4), of action_of "[]"] a
  have "map_of (foldl (\<lambda>acts (name, a). AList.update name (action_of a) acts) [] entries) name
      = Some (Action (as_name a) (as_description a) (Sequence [] None))"
    by simp
  with assms(1,2) have "\<exists>s'. create_actions s = (Inr (), s')
            \<and> map_of (actions s') name
                = Some (Action (as_name a) (as_description a) (Sequence [] None))"
    by (simp add: create_actions_def)
  moreover have "\<not> chord_matches event (Action (as_name a) (as_description a) (Sequence [] None))"
    by (simp add: chord_matches_def)
  ultimately show ?thesis using dispatch_no_key by blast
qed

theorem action_without_sequence_never_matches_witness:
  "(\<exists>s'. create_actions
            (example_analysis\<lparr>settings := Some (example_settings\<lparr>st_actions :=
               Some [(''print_help'',
                      \<lparr>as_name = Some ''print_help'', as_description = None,
                       as_sequence = None\<rparr>)]\<rparr>)\<rparr>) = (Inr (), s')
       \<and> map_of (actions s') ''print_help''
           = Some (Action (Some ''print_help'') None (Sequence [] None))
       \<and> on_key_press \<lparr>ev_key = ''h'', ev_modifiers = []\<rparr> s' = (Inr (), s'))"
proof -
  let ?a = "\<lparr>as_name = Some ''print_help'', as_description = None, as_sequence = None\<rparr>"
  let ?st = "example_settings\<lparr>st_actions := Some [(''print_help'', ?a)]\<rparr>"
  let ?s = "example_analysis\<lparr>settings := Some ?st\<rparr>"
  let ?e = "\<lparr>ev_key = ''h'', ev_modifiers = []\<rparr>"
  note w = action_without_sequence_never_matches[of ?s ?st "[(''print_help'', ?a)]"
         "''print_help''" ?a ?e]
  have "\<exists>s'. create_actions ?s = (Inr (), s')
       \<and> map_of (actions s') ''print_help''
           = Some (Action (Some ''print_help'') None (Sequence [] None))"
    using w[of "[]" ?s] by simp
  then obtain s' where s': "create_actions ?s = (Inr (), s')"
      "map_of (actions s') ''print_help'' = Some (Action (Some ''print_help'') None (Sequence [] None))"
    by blast
  from s'(1) have acts: "actions s' = [(''print_help'', Action (Some ''print_help'') None (Sequence [] None))]"
    by (auto simp: create_actions_def action_of_def sequence_of_def)
  from w[of "map snd (actions s')" s'] acts
  have "on_key_press ?e s' = (Inr (), s')"
    by (simp add: on_key_press_def)
  with s' show ?thesis by blast
qed

section \<open>Applying the layout\<close>

lemma add_widgets_resolved:
  "(\<forall>p \<in> set ps. widget_named (preset_view p) \<noteq> None) \<Longrightarrow>
     add_widgets ps g
       = (Inr (), g @ map (\<lambda>p. placement_of (the (widget_named (preset_view p))) p) ps)"
  by (induction ps arbitrary: g) auto

lemma layout_table_names:
  "fst ` set (foldl (\<lambda>presets l. AList.update (ls_name l) (layout_preset_of l) presets) acc ls)
     = fst ` set acc \<union> ls_name ` set ls"
  by (induction ls arbitrary: acc) (auto simp: dom_update map_of_eq_None_iff[symmetric]
      simp del: map_of_eq_None_iff)

text \<open>
  C6. When the active layout name is not a key of the preset table, \<^verbatim>\<open>__layout_views\<close>
  raises: \<^verbatim>\<open>.get\<close> yields \<^verbatim>\<open>None\<close>, whose \<^verbatim>\<open>views\<close> are then asked for (the spec's
  \<^verbatim>\<open>LayoutNotFound\<close> is this attribute error), and nothing is placed. When the name is a key
  and every view preset names one of the four view properties, the call succeeds and the
  grid receives, in the order of the presets, one widget per preset: the view it names, at
  its row and column with its row span and column span. The table itself holds exactly the
  layout names of the settings.
\<close>

theorem layout_application:
  "(layout s = Some n \<and> n \<notin> fst ` set (layout_presets s) \<longrightarrow>
      layout_views s
        = (Inl (AttributeError ''NoneType object has no attribute views''), s\<lparr>grid := Some []\<rparr>))
   \<and> (layout s = Some n \<and> map_of (layout_presets s) n = Some l
        \<and> (\<forall>p \<in> set (map snd (layout_preset_views l)). widget_named (preset_view p) \<noteq> None) \<longrightarrow>
      layout_views s
        = (Inr (),
           s\<lparr>grid := Some (map (\<lambda>p. \<lparr>pl_widget = the (widget_named (preset_view p)),
                                     pl_row = preset_row p, pl_col = preset_column p,
                                     pl_row_span = preset_row_span p,
                                     pl_col_span = preset_column_span p\<rparr>)
                            (map snd (layout_preset_views l)))\<rparr>))
   \<and> (settings s = Some st \<and> layout_presets s = [] \<longrightarrow>
        (\<exists>s'. create_layout_presets s = (Inr (), s')
           \<and> fst ` set (layout_presets s') = ls_name ` set (st_layouts st)))"
proof (intro conjI impI)
  assume "layout s = Some n \<and> n \<notin> fst ` set (layout_presets s)"
  then have "resolve_layout s = None"
    by (simp add: resolve_layout_def map_of_eq_None_iff)
  then show "layout_views s
        = (Inl (AttributeError ''NoneType object has no attribute views''), s\<lparr>grid := Some []\<rparr>)"
    by (simp add: layout_views_def)
next
  assume a: "layout s = Some n \<and> map_of (layout_presets s) n = Some l
        \<and> (\<forall>p \<in> set (map snd (layout_preset_views l)). widget_named (preset_view p) \<noteq> None)"
  then have "resolve_layout s = Some l" by (simp add: resolve_layout_def)
  moreover from a have "add_widgets (map snd (layout_preset_views l)) []
      = (Inr (), map (\<lambda>p. placement_of (the (widget_named (preset_view p))) p)
                   (map snd (layout_preset_views l)))"
    using add_widgets_resolved[of "map snd (layout_preset_views l)" "[]"] by simp
  ultimately show "layout_views s
        = (Inr (),
           s\<lparr>grid := Some (map (\<lambda>p. \<lparr>pl_widget = the (widget_named (preset_view p)),
                                     pl_row = preset_row p, pl_col = preset_column p,
                                     pl_row_span = preset_row_span p,
                                     pl_col_span = preset_column_span p\<rparr>)
                            (map snd (layout_preset_views l)))\<rparr>)"
    by (simp add: layout_views_def placement_of_def)
next
  assume "settings s = Some st \<and> layout_presets s = []"
  then show "\<exists>s'. create_layout_presets s = (Inr (), s')
           \<and> fst ` set (layout_presets s') = ls_name ` set (st_layouts st)"
    by (simp add: create_layout_presets_def layout_table_names)
qed

theorem layout_application_witness:
  "layout_views (example_analysis\<lparr>layout := Some ''layout_9''\<rparr>)
     = (Inl (AttributeError ''NoneType object has no attribute views''),
        example_analysis\<lparr>layout := Some ''layout_9'', grid := Some []\<rparr>)
   \<and> layout_views example_analysis
     = (Inr (),
        example_analysis\<lparr>grid :=
          Some [\<lparr>pl_widget = GamutView, pl_row = 0, pl_col = 0, pl_row_span = 2,
                 pl_col_span = 2\<rparr>,
                \<lparr>pl_widget = ConsoleView, pl_row = 2, pl_col = 0, pl_row_span = 1,
                 pl_col_span = 2\<rparr>]\<rparr>)
   \<and> init example_env (example_args\<lparr>arg_layout := PyStr ''layout_9''\<rparr>)
     = Inl (AttributeError ''NoneType object has no attribute views'')"
proof -
  let ?l = "LayoutPreset ''layout_1'' ''Layout 1''
            [(''gamut_view'', ViewPreset ''gamut_view'' ''Gamut'' ''gamut_view'' 0 0 2 2),
             (''console_view'',
              ViewPreset ''console_view'' ''Console'' ''console_view'' 2 0 1 2)]"
  let ?s9 = "example_analysis\<lparr>layout := Some ''layout_9''\<rparr>"
  have absent: "layout ?s9 = Some ''layout_9'' \<and> ''layout_9'' \<notin> fst ` set (layout_presets ?s9)"
    by (simp add: example_analysis_eq)
  have present: "layout example_analysis = Some ''layout_1''
      \<and> map_of (layout_presets example_analysis) ''layout_1'' = Some ?l
      \<and> (\<forall>p \<in> set (map snd (layout_preset_views ?l)). widget_named (preset_view p) \<noteq> None)"
    by (simp add: example_analysis_eq widget_named_def)
  have w: "the (widget_named ''gamut_view'') = GamutView"
    "the (widget_named ''console_view'') = ConsoleView"
    by (simp_all add: widget_named_def)
  from layout_application[of ?s9 "''layout_9''"] absent
  have 1: "layout_views ?s9
     = (Inl (AttributeError ''NoneType object has no attribute views''), ?s9\<lparr>grid := Some []\<rparr>)"
    by blast
  from layout_application[of example_analysis "''layout_1''" ?l] present
  have 2: "layout_views example_analysis
     = (Inr (),
        example_analysis\<lparr>grid :=
          Some [\<lparr>pl_widget = GamutView, pl_row = 0, pl_col = 0, pl_row_span = 2,
                 pl_col_span = 2\<rparr>,
                \<lparr>pl_widget = ConsoleView, pl_row = 2, pl_col = 0, pl_row_span = 1,
                 pl_col_span = 2\<rparr>]\<rparr>)"
    by (simp add: w)
  have 3: "init example_env (example_args\<lparr>arg_layout := PyStr ''layout_9''\<rparr>)
     = Inl (AttributeError ''NoneType object has no attribute views'')"
    by (simp add: init_def init_steps_def example_env_def example_args_def example_settings_def
      new_analysis_def rgb_contains_def lower_def lower_char_def set_image_path_def set_image_def
      set_input_colourspace_def
      set_input_oecf_def set_input_linear_def set_input_resample_def
      set_reference_colourspace_def set_correlate_colourspace_def assign_settings_def
      set_layout_def create_cycles_def correlate_candidates_def deque_rotate_def
      create_layout_presets_def layout_preset_of_def view_preset_of_def
      create_actions_def action_of_def sequence_of_def create_image_def linearise_def
      keep_rgb_def resample_def strided_def example_image_def create_views_def
      layout_views_def resolve_layout_def widget_named_def placement_of_def
      numeral_2_eq_2 rotate1_def)
  from 1 2 3 show ?thesis by simp
qed

section \<open>Key dispatch\<close>

lemma view_hasattr_calls [simp]:
  "view_hasattr v m (s\<lparr>calls := c\<rparr>) = view_hasattr v m s"
  by (cases v) (simp_all add: view_hasattr_def)

lemma invoke_on_views_calls:
  "invoke_on_views m vs s
     = s\<lparr>calls := calls s @ map (\<lambda>v. (View v, m)) (filter (\<lambda>v. view_hasattr v m s) vs)\<rparr>"
  by (induction vs arbitrary: s) simp_all

lemma invoke_on_self_absent: "\<not> self_hasattr m \<Longrightarrow> invoke_on_self m s = (Inr (), s)"
  by (simp add: invoke_on_self_def)

lemma cycle_correlate_frame:
  assumes "cycle_correlate_colourspace_action s = (r, s')"
  shows "calls s' = calls s \<and> views s' = views s \<and> view_hasattr v m s' = view_hasattr v m s"
  using assms
  by (cases v)
     (auto simp: cycle_correlate_colourspace_action_def view_hasattr_def
        split: sum.splits option.splits prod.splits)

lemma cycle_reference_frame:
  assumes "cycle_reference_colourspace_action s = (r, s')"
  shows "calls s' = calls s \<and> views s' = views s \<and> view_hasattr v m s' = view_hasattr v m s"
  using assms
  by (cases v)
     (auto simp: cycle_reference_colourspace_action_def view_hasattr_def
        split: sum.splits option.splits prod.splits)

lemma invoke_on_self_present:
  assumes "self_hasattr m" "invoke_on_self m s = (r, s')"
  shows "calls s' = calls s @ [(Coordinator, m)] \<and> views s' = views s
         \<and> view_hasattr v m' s' = view_hasattr v m' s"
proof (cases "m = ''cycle_correlate_colourspace_action''")
  case True
  with assms obtain r0 where
    "cycle_correlate_colourspace_action (s\<lparr>calls := calls s @ [(Coordinator, m)]\<rparr>) = (r0, s')"
    by (auto simp: invoke_on_self_def split: prod.splits sum.splits)
  from cycle_correlate_frame[OF this, of v m'] show ?thesis by simp
next
  case False
  with assms obtain r0 where
    "cycle_reference_colourspace_action (s\<lparr>calls := calls s @ [(Coordinator, m)]\<rparr>) = (r0, s')"
    by (auto simp: invoke_on_self_def split: prod.splits sum.splits)
  from cycle_reference_frame[OF this, of v m'] show ?thesis by simp
qed

lemma lower_char_idem: "lower_char (lower_char c) = lower_char c"
  by (simp add: lower_char_def)

lemma lower_idem: "lower (lower x) = lower x"
  by (simp add: lower_def lower_char_idem)

lemma lower_comp: "lower \<circ> lower = lower"
  by (rule ext) (simp add: lower_idem)

lemma chord_dispatch_parts:
  assumes acts: "actions s = [(k, a)]"
    and chord: "action_sequence a = Sequence [''control''] (Some ''g'')"
    and vs: "views s = Some vs" "distinct vs"
    and key: "lower (ev_key e) = ''g''"
    and mods: "map lower (ev_modifiers e) = [''control'']"
    and key0: "lower (ev_key e0) = ''g''"
    and mods0: "ev_modifiers e0 = []"
  shows "\<exists>r s' new. on_key_press e s = (r, s') \<and> calls s' = calls s @ new \<and> distinct new
           \<and> (r = Inr () \<longrightarrow>
                set new = (if self_hasattr (method_name a) then {(Coordinator, method_name a)}
                           else {})
                  \<union> {(View v, method_name a) | v. v \<in> set vs
                        \<and> view_hasattr v (method_name a) s})
           \<and> (r \<noteq> Inr () \<longrightarrow> self_hasattr (method_name a) \<and> new = [(Coordinator, method_name a)])
           \<and> (\<not> self_hasattr (method_name a) \<longrightarrow> r = Inr ())"
    and "on_key_press e0 s = (Inr (), s)"
    and "on_key_press \<lparr>ev_key = lower (ev_key e'), ev_modifiers = map lower (ev_modifiers e')\<rparr> t
           = on_key_press e' t"
proof -
  let ?m = "method_name a"
  from chord key mods have match: "chord_matches e a"
    by (simp add: chord_matches_def)
  obtain r1 s1 where self: "invoke_on_self ?m s = (r1, s1)" by (cases "invoke_on_self ?m s")
  let ?viewcalls = "map (\<lambda>v. (View v, ?m)) (filter (\<lambda>v. view_hasattr v ?m s) vs)"
  have dv: "distinct ?viewcalls" using vs(2) by (simp add: distinct_map inj_on_def)
  have sv: "set ?viewcalls = {(View v, ?m) | v. v \<in> set vs \<and> view_hasattr v ?m s}" by auto
  show "\<exists>r s' new. on_key_press e s = (r, s') \<and> calls s' = calls s @ new \<and> distinct new
           \<and> (r = Inr () \<longrightarrow>
                set new = (if self_hasattr ?m then {(Coordinator, ?m)} else {})
                  \<union> {(View v, ?m) | v. v \<in> set vs \<and> view_hasattr v ?m s})
           \<and> (r \<noteq> Inr () \<longrightarrow> self_hasattr ?m \<and> new = [(Coordinator, ?m)])
           \<and> (\<not> self_hasattr ?m \<longrightarrow> r = Inr ())"
  proof (cases "self_hasattr ?m")
    case False
    then have "invoke_on_self ?m s = (Inr (), s)" by (rule invoke_on_self_absent)
    with acts match vs(1)
    have "on_key_press e s = (Inr (), s\<lparr>calls := calls s @ ?viewcalls\<rparr>)"
      by (simp add: on_key_press_def invoke_on_views_calls)
    with False dv sv show ?thesis by auto
  next
    case True
    note fr = invoke_on_self_present[OF True self]
    show ?thesis
    proof (cases r1)
      case (Inl err)
      with acts match self have "on_key_press e s = (Inl err, s1)"
        by (simp add: on_key_press_def)
      with fr True show ?thesis by auto
    next
      case (Inr u)
      from fr have same: "filter (\<lambda>v. view_hasattr v ?m s1) vs = filter (\<lambda>v. view_hasattr v ?m s) vs"
        by simp
      from Inr acts match self vs(1) fr
      have "on_key_press e s
          = (Inr (), s1\<lparr>calls := calls s1 @ map (\<lambda>v. (View v, ?m))
                                           (filter (\<lambda>v. view_hasattr v ?m s1) vs)\<rparr>)"
        by (simp add: on_key_press_def invoke_on_views_calls)
      with same fr have ok: "on_key_press e s
          = (Inr (), s1\<lparr>calls := calls s @ ((Coordinator, ?m) # ?viewcalls)\<rparr>)"
        by simp
      have "distinct ((Coordinator, ?m) # ?viewcalls)" using dv by auto
      moreover have "set ((Coordinator, ?m) # ?viewcalls)
          = {(Coordinator, ?m)} \<union> {(View v, ?m) | v. v \<in> set vs \<and> view_hasattr v ?m s}"
        using sv by auto
      ultimately show ?thesis using ok True
        by (intro exI[of _ "Inr ()"] exI[of _ "s1\<lparr>calls := calls s @ ((Coordinator, ?m) # ?viewcalls)\<rparr>"]
            exI[of _ "(Coordinator, ?m) # ?viewcalls"]) simp
    qed
  qed
  from chord key0 mods0 have "\<not> chord_matches e0 a"
    by (simp add: chord_matches_def)
  with acts show "on_key_press e0 s = (Inr (), s)"
    by (simp add: on_key_press_def)
  have cm: "chord_matches \<lparr>ev_key = lower (ev_key e'), ev_modifiers = map lower (ev_modifiers e')\<rparr> b
      = chord_matches e' b" for b
    by (simp add: chord_matches_def lower_idem lower_comp)
  have "dispatch \<lparr>ev_key = lower (ev_key e'), ev_modifiers = map lower (ev_modifiers e')\<rparr> bs t
      = dispatch e' bs t" for bs
    by (induction bs arbitrary: t) (simp_all add: cm split: prod.splits sum.splits option.splits)
  then show "on_key_press \<lparr>ev_key = lower (ev_key e'), ev_modifiers = map lower (ev_modifiers e')\<rparr> t
           = on_key_press e' t"
    by (simp add: on_key_press_def)
qed

lemma lowercase_side:
  assumes "chord_matches e b"
  shows "(\<forall>x \<in> set (seq_modifiers (action_sequence b)). lower x = x)
       \<and> (\<forall>y. seq_key (action_sequence b) = Some y \<longrightarrow> lower y = y)"
proof -
  from assms have key: "seq_key (action_sequence b) = Some (lower (ev_key e))"
    and mods: "sort (map lower (ev_modifiers e)) = sort (seq_modifiers (action_sequence b))"
    by (simp_all add: chord_matches_def)
  have "set (seq_modifiers (action_sequence b)) = set (sort (seq_modifiers (action_sequence b)))"
    by simp
  also from mods have "\<dots> = set (sort (map lower (ev_modifiers e)))" by simp
  also have "\<dots> = lower ` set (ev_modifiers e)" by simp
  finally have "\<forall>x \<in> set (seq_modifiers (action_sequence b)). lower x = x"
    by (auto simp: lower_idem)
  with key show ?thesis by (simp add: lower_idem)
qed

lemma chord_dispatch_result:
  assumes acts: "actions s = [(k, a)]"
    and vs: "views s = Some vs"
    and match: "chord_matches e a"
  shows "on_key_press e s =
     (if method_name a = ''cycle_correlate_colourspace_action'' then
        (case cycle_correlate_colourspace_action
                (s\<lparr>calls := calls s @ [(Coordinator, method_name a)]\<rparr>) of
           (Inl err, s1) \<Rightarrow> (Inl err, s1)
         | (Inr b, s1) \<Rightarrow>
             (Inr (), s1\<lparr>calls := calls s1 @ map (\<lambda>v. (View v, method_name a))
                                    (filter (\<lambda>v. view_hasattr v (method_name a) s) vs)\<rparr>))
      else if method_name a = ''cycle_reference_colourspace_action'' then
        (case cycle_reference_colourspace_action
                (s\<lparr>calls := calls s @ [(Coordinator, method_name a)]\<rparr>) of
           (Inl err, s1) \<Rightarrow> (Inl err, s1)
         | (Inr b, s1) \<Rightarrow>
             (Inr (), s1\<lparr>calls := calls s1 @ map (\<lambda>v. (View v, method_name a))
                                    (filter (\<lambda>v. view_hasattr v (method_name a) s) vs)\<rparr>))
      else (Inr (), s\<lparr>calls := calls s @ map (\<lambda>v. (View v, method_name a))
                                (filter (\<lambda>v. view_hasattr v (method_name a) s) vs)\<rparr>))"
proof -
  let ?m = "method_name a"
  let ?s0 = "s\<lparr>calls := calls s @ [(Coordinator, ?m)]\<rparr>"
  consider (cor) "?m = ''cycle_correlate_colourspace_action''"
    | (ref) "?m \<noteq> ''cycle_correlate_colourspace_action''"
        "?m = ''cycle_reference_colourspace_action''"
    | (none) "?m \<noteq> ''cycle_correlate_colourspace_action''"
        "?m \<noteq> ''cycle_reference_colourspace_action''"
    by blast
  then show ?thesis
  proof cases
    case cor
    obtain r1 s1 where act: "cycle_correlate_colourspace_action ?s0 = (r1, s1)"
      by (cases "cycle_correlate_colourspace_action ?s0")
    have fr: "views s1 = Some vs"
      "filter (\<lambda>v. view_hasattr v ?m s1) vs = filter (\<lambda>v. view_hasattr v ?m s) vs"
      using cycle_correlate_frame[OF act, of _ ?m] vs by simp_all
    from cor have self: "invoke_on_self ?m s
        = (case cycle_correlate_colourspace_action ?s0 of
             (Inl e, s') \<Rightarrow> (Inl e, s') | (Inr b, s') \<Rightarrow> (Inr (), s'))"
      by (simp add: invoke_on_self_def self_hasattr_def)
    show ?thesis
    proof (cases r1)
      case (Inl err)
      with acts match self act cor show ?thesis by (simp add: on_key_press_def)
    next
      case (Inr b)
      with acts match self act cor fr show ?thesis
        by (simp add: on_key_press_def invoke_on_views_calls)
    qed
  next
    case ref
    obtain r1 s1 where act: "cycle_reference_colourspace_action ?s0 = (r1, s1)"
      by (cases "cycle_reference_colourspace_action ?s0")
    have fr: "views s1 = Some vs"
      "filter (\<lambda>v. view_hasattr v ?m s1) vs = filter (\<lambda>v. view_hasattr v ?m s) vs"
      using cycle_reference_frame[OF act, of _ ?m] vs by simp_all
    from ref have self: "invoke_on_self ?m s
        = (case cycle_reference_colourspace_action ?s0 of
             (Inl e, s') \<Rightarrow> (Inl e, s') | (Inr b, s') \<Rightarrow> (Inr (), s'))"
      by (simp add: invoke_on_self_def self_hasattr_def)
    show ?thesis
    proof (cases r1)
      case (Inl err)
      with acts match self act ref show ?thesis by (simp add: on_key_press_def)
    next
      case (Inr b)
      with acts match self act ref fr show ?thesis
        by (simp add: on_key_press_def invoke_on_views_calls)
    qed
  next
    case none
    then have "\<not> self_hasattr ?m" by (simp add: self_hasattr_def)
    then have "invoke_on_self ?m s = (Inr (), s)" by (rule invoke_on_self_absent)
    with acts match vs none show ?thesis
      by (simp add: on_key_press_def invoke_on_views_calls)
  qed
qed

text \<open>
  C3, as the code has it. Let the only registered action be bound to the modifier
  \<^verbatim>\<open>control\<close> and the key \<^verbatim>\<open>g\<close>, in lowercase. A key event whose key is \<^verbatim>\<open>g\<close> and whose one held
  modifier is \<^verbatim>\<open>control\<close>, each in any letter case, runs the handler \<^verbatim>\<open><name>_action\<close>: when
  the name is one of the coordinator's two actions that action is run once, on the object
  as it is, and, unless it raised, the handler is then run once on every view of
  \<^verbatim>\<open>__views\<close> that has it; for any other name only the views' handlers run. The handlers
  invoked by the key press are pairwise different. The same key with no modifier held
  invokes nothing and changes nothing. The letter case of an event never matters: an event
  and its lowercased form are dispatched alike. The chord of the settings is compared as
  it is written: an action that some event matches has its key and all its modifiers in
  lowercase.
\<close>

theorem chord_dispatch:
  assumes "actions s = [(k, a)]"
    and "action_sequence a = Sequence [''control''] (Some ''g'')"
    and "views s = Some vs" and "distinct vs"
    and "lower (ev_key e) = ''g''"
    and "map lower (ev_modifiers e) = [''control'']"
    and "lower (ev_key e0) = ''g''"
    and "ev_modifiers e0 = []"
  shows "on_key_press e s =
     (if method_name a = ''cycle_correlate_colourspace_action'' then
        (case cycle_correlate_colourspace_action
                (s\<lparr>calls := calls s @ [(Coordinator, method_name a)]\<rparr>) of
           (Inl err, s1) \<Rightarrow> (Inl err, s1)
         | (Inr b, s1) \<Rightarrow>
             (Inr (), s1\<lparr>calls := calls s1 @ map (\<lambda>v. (View v, method_name a))
                                    (filter (\<lambda>v. view_hasattr v (method_name a) s) vs)\<rparr>))
      else if method_name a = ''cycle_reference_colourspace_action'' then
        (case cycle_reference_colourspace_action
                (s\<lparr>calls := calls s @ [(Coordinator, method_name a)]\<rparr>) of
           (Inl err, s1) \<Rightarrow> (Inl err, s1)
         | (Inr b, s1) \<Rightarrow>
             (Inr (), s1\<lparr>calls := calls s1 @ map (\<lambda>v. (View v, method_name a))
                                    (filter (\<lambda>v. view_hasattr v (method_name a) s) vs)\<rparr>))
      else (Inr (), s\<lparr>calls := calls s @ map (\<lambda>v. (View v, method_name a))
                                (filter (\<lambda>v. view_hasattr v (method_name a) s) vs)\<rparr>))
    \<and> (\<exists>r s' new. on_key_press e s = (r, s') \<and> calls s' = calls s @ new \<and> distinct new
           \<and> (r = Inr () \<longrightarrow>
                set new = (if self_hasattr (method_name a) then {(Coordinator, method_name a)}
                           else {})
                  \<union> {(View v, method_name a) | v. v \<in> set vs
                        \<and> view_hasattr v (method_name a) s})
           \<and> (r \<noteq> Inr () \<longrightarrow> self_hasattr (method_name a) \<and> new = [(Coordinator, method_name a)])
           \<and> (\<not> self_hasattr (method_name a) \<longrightarrow> r = Inr ()))
    \<and> on_key_press e0 s = (Inr (), s)
    \<and> on_key_press \<lparr>ev_key = lower (ev_key e'), ev_modifiers = map lower (ev_modifiers e')\<rparr> t
         = on_key_press e' t
    \<and> (chord_matches e' b \<longrightarrow>
          (\<forall>x \<in> set (seq_modifiers (action_sequence b)). lower x = x)
          \<and> (\<forall>y. seq_key (action_sequence b) = Some y \<longrightarrow> lower y = y))"
proof -
  from assms(2,5,6) have match: "chord_matches e a"
    by (simp add: chord_matches_def)
  note result = chord_dispatch_result[OF assms(1) assms(3) match]
  note parts = chord_dispatch_parts[OF assms]
  have lowercase: "chord_matches e' b \<longrightarrow>
          (\<forall>x \<in> set (seq_modifiers (action_sequence b)). lower x = x)
          \<and> (\<forall>y. seq_key (action_sequence b) = Some y \<longrightarrow> lower y = y)"
    using lowercase_side[of e' b] by (rule impI)
  show ?thesis
    by (rule conjI[OF result conjI[OF parts(1) conjI[OF parts(2) conjI[OF parts(3) lowercase]]]])
qed

theorem chord_dispatch_witness:
  "on_key_press \<lparr>ev_key = ''G'', ev_modifiers = [''Control'']\<rparr> example_analysis
     = (Inr (), example_analysis\<lparr>calls := [(View GamutView, ''toggle_grid_action'')]\<rparr>)
   \<and> on_key_press \<lparr>ev_key = ''g'', ev_modifiers = []\<rparr> example_analysis
     = (Inr (), example_analysis)
   \<and> on_key_press \<lparr>ev_key = ''G'', ev_modifiers = [''CONTROL'']\<rparr>
       (example_analysis\<lparr>actions :=
          [(''cycle_correlate_colourspace'',
            Action (Some ''cycle_correlate_colourspace'') None
              (Sequence [''control''] (Some ''g'')))]\<rparr>)
     = (Inr (),
        example_analysis\<lparr>actions :=
            [(''cycle_correlate_colourspace'',
              Action (Some ''cycle_correlate_colourspace'') None
                (Sequence [''control''] (Some ''g'')))],
          correlate_colourspace := Some ''ACES2065-1'',
          RGB_colourspaces_cycle := Cycle [''ACES2065-1'', ''ACEScg'', ''sRGB''] 1,
          gamut_view :=
            Some \<lparr>view_methods = [''toggle_grid_action''],
                  view_correlate_colourspace = Some ''ACES2065-1'',
                  view_reference_colourspace = Some ''CIE xyY''\<rparr>,
          image_view :=
            Some \<lparr>view_methods = [], view_correlate_colourspace = Some ''ACES2065-1'',
                  view_reference_colourspace = None\<rparr>,
          calls := [(Coordinator, ''cycle_correlate_colourspace_action'')]\<rparr>)"
proof -
  let ?a = "Action (Some ''toggle_grid'') (Some ''Toggle the grid'')
              (Sequence [''control''] (Some ''g''))"
  let ?c = "Action (Some ''cycle_correlate_colourspace'') None
              (Sequence [''control''] (Some ''g''))"
  let ?sc = "example_analysis\<lparr>actions := [(''cycle_correlate_colourspace'', ?c)]\<rparr>"
  let ?ev = "\<lparr>ev_key = ''G'', ev_modifiers = [''Control'']\<rparr>"
  let ?up = "\<lparr>ev_key = ''G'', ev_modifiers = [''CONTROL'']\<rparr>"
  let ?plain = "\<lparr>ev_key = ''g'', ev_modifiers = []\<rparr>"
  let ?vs = "[ConsoleView, GamutView, ImageView]"
  have h1: "actions example_analysis = [(''toggle_grid'', ?a)]"
    by (simp add: example_analysis_eq)
  have h2: "action_sequence ?a = Sequence [''control''] (Some ''g'')"
    by simp
  have h3: "views example_analysis = Some ?vs"
    by (simp add: example_analysis_eq)
  have h4: "distinct ?vs"
    by simp
  have h5: "lower (ev_key ?ev) = ''g''"
    by (simp add: lower_def lower_char_def)
  have h6: "map lower (ev_modifiers ?ev) = [''control'']"
    by (simp add: lower_def lower_char_def)
  have h7: "lower (ev_key ?plain) = ''g''"
    by (simp add: lower_def lower_char_def)
  have h8: "ev_modifiers ?plain = []"
    by simp
  note w = chord_dispatch[OF h1 h2 h3 h4 h5 h6 h7 h8, of ?plain example_analysis ?a]
  have m: "method_name ?a = ''toggle_grid_action''"
    by (simp add: method_name_def)
  have f: "filter (\<lambda>v. view_hasattr v ''toggle_grid_action'' example_analysis) ?vs = [GamutView]"
    by (simp add: view_hasattr_def example_analysis_eq)
  have c: "calls example_analysis = []"
    by (simp add: example_analysis_eq)
  from w m f c have 1: "on_key_press ?ev example_analysis
     = (Inr (), example_analysis\<lparr>calls := [(View GamutView, ''toggle_grid_action'')]\<rparr>)"
    by simp
  from w have 2: "on_key_press ?plain example_analysis = (Inr (), example_analysis)"
    by simp
  have g1: "actions ?sc = [(''cycle_correlate_colourspace'', ?c)]" by simp
  have g2: "action_sequence ?c = Sequence [''control''] (Some ''g'')" by simp
  have g3: "views ?sc = Some ?vs" by (simp add: example_analysis_eq)
  have g5: "lower (ev_key ?up) = ''g''"
    by (simp add: lower_def lower_char_def)
  have g6: "map lower (ev_modifiers ?up) = [''control'']"
    by (simp add: lower_def lower_char_def)
  note wc = chord_dispatch[OF g1 g2 g3 h4 g5 g6 h7 h8, of ?plain example_analysis ?c]
  have mc: "method_name ?c = ''cycle_correlate_colourspace_action''"
    by (simp add: method_name_def)
  have fc: "filter (\<lambda>v. view_hasattr v ''cycle_correlate_colourspace_action'' ?sc) ?vs = []"
    by (simp add: view_hasattr_def example_analysis_eq)
  from wc have "on_key_press ?up ?sc
      = (case cycle_correlate_colourspace_action
                (?sc\<lparr>calls := calls ?sc @ [(Coordinator, method_name ?c)]\<rparr>) of
           (Inl err, s1) \<Rightarrow> (Inl err, s1)
         | (Inr b, s1) \<Rightarrow>
             (Inr (), s1\<lparr>calls := calls s1 @ map (\<lambda>v. (View v, method_name ?c))
                                    (filter (\<lambda>v. view_hasattr v (method_name ?c) ?sc) ?vs)\<rparr>))"
    using mc by simp
  also have "\<dots> = (Inr (),
        ?sc\<lparr>correlate_colourspace := Some ''ACES2065-1'',
          RGB_colourspaces_cycle := Cycle [''ACES2065-1'', ''ACEScg'', ''sRGB''] 1,
          gamut_view :=
            Some \<lparr>view_methods = [''toggle_grid_action''],
                  view_correlate_colourspace = Some ''ACES2065-1'',
                  view_reference_colourspace = Some ''CIE xyY''\<rparr>,
          image_view :=
            Some \<lparr>view_methods = [], view_correlate_colourspace = Some ''ACES2065-1'',
                  view_reference_colourspace = None\<rparr>,
          calls := [(Coordinator, ''cycle_correlate_colourspace_action'')]\<rparr>)"
    unfolding mc fc
    by (simp add: example_analysis_eq cycle_correlate_colourspace_action_def cycle_next_def)
  finally have 3: "on_key_press ?up ?sc = (Inr (),
        ?sc\<lparr>correlate_colourspace := Some ''ACES2065-1'',
          RGB_colourspaces_cycle := Cycle [''ACES2065-1'', ''ACEScg'', ''sRGB''] 1,
          gamut_view :=
            Some \<lparr>view_methods = [''toggle_grid_action''],
                  view_correlate_colourspace = Some ''ACES2065-1'',
                  view_reference_colourspace = Some ''CIE xyY''\<rparr>,
          image_view :=
            Some \<lparr>view_methods = [], view_correlate_colourspace = Some ''ACES2065-1'',
                  view_reference_colourspace = None\<rparr>,
          calls := [(Coordinator, ''cycle_correlate_colourspace_action'')]\<rparr>)" .
  from 1 2 3 show ?thesis by simp
qed

text \<open>
  The claim as stated fails in its last clause: the comparison is not case-insensitive on
  the side of the settings. The chord written \<^verbatim>\<open>Control\<close>, \<^verbatim>\<open>g\<close> in the settings is not matched
  by the event control+g, in whatever letter case the event comes, and the key press
  reaches no handler.
\<close>

theorem chord_dispatch_counterexample:
  "chord_matches \<lparr>ev_key = ''g'', ev_modifiers = [''Control'']\<rparr>
     (Action (Some ''toggle_grid'') None (Sequence [''control''] (Some ''g'')))
   \<and> \<not> chord_matches \<lparr>ev_key = ''g'', ev_modifiers = [''Control'']\<rparr>
     (Action (Some ''toggle_grid'') None (Sequence [''Control''] (Some ''g'')))
   \<and> \<not> chord_matches \<lparr>ev_key = ''g'', ev_modifiers = [''control'']\<rparr>
     (Action (Some ''toggle_grid'') None (Sequence [''Control''] (Some ''g'')))
   \<and> on_key_press \<lparr>ev_key = ''g'', ev_modifiers = [''Control'']\<rparr>
       (example_analysis\<lparr>actions :=
          [(''toggle_grid'',
            Action (Some ''toggle_grid'') None (Sequence [''Control''] (Some ''g'')))]\<rparr>)
     = (Inr (),
        example_analysis\<lparr>actions :=
          [(''toggle_grid'',
            Action (Some ''toggle_grid'') None (Sequence [''Control''] (Some ''g'')))]\<rparr>)"
  by (simp add: chord_matches_def on_key_press_def lower_def lower_char_def)

text \<open>
  C4 asks that a matching key press reach the handler of each of the four views. The tuple
  \<^verbatim>\<open>__views\<close> holds the console, gamut and image views only: in the concrete run the diagram
  view has the method \<^verbatim>\<open>toggle_grid_action\<close>, as the gamut view does, and control+g invokes
  it on the gamut view alone.
\<close>

theorem diagram_view_not_dispatched:
  "view_hasattr DiagramView ''toggle_grid_action'' example_analysis
   \<and> view_hasattr GamutView ''toggle_grid_action'' example_analysis
   \<and> views example_analysis = Some [ConsoleView, GamutView, ImageView]
   \<and> on_key_press \<lparr>ev_key = ''g'', ev_modifiers = [''control'']\<rparr> example_analysis
       = (Inr (), example_analysis\<lparr>calls := [(View GamutView, ''toggle_grid_action'')]\<rparr>)"
  by (simp add: on_key_press_def example_analysis_eq chord_matches_def lower_def
      lower_char_def method_name_def invoke_on_self_def self_hasattr_def view_hasattr_def)


section \<open>What construction establishes\<close>

lemma run_all_append_success:
  "run_all (fs @ gs) s = (Inr u, s') \<Longrightarrow>
     \<exists>s1. run_all fs s = (Inr (), s1) \<and> run_all gs s1 = (Inr u, s')"
  by (induction fs arbitrary: s) (auto split: prod.splits sum.splits)

lemma run_all_single_success:
  "run_all [f] s = (Inr u, s') \<Longrightarrow> f s = (Inr (), s')"
  by (auto split: prod.splits sum.splits)

lemma run_all_keeps:
  "(\<forall>f \<in> set fs. \<forall>t. proj (snd (f t)) = proj t) \<Longrightarrow> proj (snd (run_all fs s)) = proj s"
proof (induction fs arbitrary: s)
  case Nil
  then show ?case by simp
next
  case (Cons f fs)
  obtain r s1 where f: "f s = (r, s1)" by (cases "f s")
  from Cons.prems have "proj (snd (f s)) = proj s" by simp
  with f have s1: "proj s1 = proj s" by simp
  show ?case
  proof (cases r)
    case (Inl e)
    with f s1 show ?thesis by simp
  next
    case (Inr u)
    from Cons.prems have "\<forall>f \<in> set fs. \<forall>t. proj (snd (f t)) = proj t" by simp
    from Cons.IH[OF this, of s1] Inr f s1 show ?thesis by simp
  qed
qed

lemma py_index_nth: "py_index xs x = Inr i \<Longrightarrow> i < length xs \<and> xs ! i = x"
  by (induction xs arbitrary: i) (auto split: if_splits sum.splits)

lemma py_index_first:
  "py_index xs x = Inr i \<Longrightarrow> x \<notin> set (take i xs)"
proof (induction xs arbitrary: i)
  case Nil
  then show ?case by simp
next
  case (Cons y ys)
  then show ?case by (cases i) (auto split: if_splits sum.splits)
qed

text \<open>The attributes the two cycle actions read, as a successful \<^verbatim>\<open>__init__\<close> leaves them.\<close>

lemma init_establishes:
  assumes "init env args = Inr s0"
  shows "\<exists>R i. arg_reference_colourspace args = PyStr R
           \<and> reference_colourspace s0 = Some R
           \<and> py_index (REFERENCE_COLOURSPACES env) R = Inr i
           \<and> reference_colourspaces_cycle s0
               = Cycle (deque_rotate (- int i - 1) (REFERENCE_COLOURSPACES env)) 0
           \<and> RGB_colourspaces_cycle s0 = Cycle (correlate_candidates env) 0
           \<and> gamut_view s0 \<noteq> None \<and> image_view s0 \<noteq> None
           \<and> views s0 = Some [ConsoleView, GamutView, ImageView]"
proof -
  let ?pre = "[set_image_path env (arg_image_path args),
      set_image (Some (random_image env)),
      set_input_colourspace env (arg_input_colourspace args),
      set_input_oecf env (arg_input_oecf args),
      set_input_linear (arg_input_linear args),
      set_input_resample (arg_input_resample args)]"
  from assms obtain st where st: "arg_settings args = Some st"
    and run: "run_all (init_steps env args st) new_analysis = (Inr (), s0)"
    by (auto simp: init_def split: option.splits prod.splits sum.splits)
  let ?ref = "set_reference_colourspace env (arg_reference_colourspace args)"
  let ?mid1 = "[set_correlate_colourspace env (arg_correlate_colourspace args),
      assign_settings st, set_layout (arg_layout args)]"
  let ?mid2 = "[create_layout_presets, create_actions, create_image env]"
  have steps: "init_steps env args st
      = ?pre @ ([?ref] @ (?mid1 @ ([create_cycles env] @ (?mid2 @ ([create_views env]
          @ [layout_views])))))"
    by (simp add: init_steps_def)
  from run_all_append_success[OF run[unfolded steps]] obtain sA where
    r1: "run_all ([?ref] @ (?mid1 @ ([create_cycles env] @ (?mid2 @ ([create_views env]
          @ [layout_views]))))) sA = (Inr (), s0)"
    by blast
  from run_all_append_success[OF r1] obtain sB where
    B0: "run_all [?ref] sA = (Inr (), sB)"
    and r2: "run_all (?mid1 @ ([create_cycles env] @ (?mid2 @ ([create_views env]
          @ [layout_views])))) sB = (Inr (), s0)"
    by blast
  from run_all_append_success[OF r2] obtain sC where
    C: "run_all ?mid1 sB = (Inr (), sC)"
    and r3: "run_all ([create_cycles env] @ (?mid2 @ ([create_views env] @ [layout_views]))) sC
          = (Inr (), s0)"
    by blast
  from run_all_append_success[OF r3] obtain sD where
    D0: "run_all [create_cycles env] sC = (Inr (), sD)"
    and r4: "run_all (?mid2 @ ([create_views env] @ [layout_views])) sD = (Inr (), s0)"
    by blast
  from run_all_append_success[OF r4] obtain sE where
    E: "run_all ?mid2 sD = (Inr (), sE)"
    and r5: "run_all ([create_views env] @ [layout_views]) sE = (Inr (), s0)"
    by blast
  from run_all_append_success[OF r5] obtain sF where
    F0: "run_all [create_views env] sE = (Inr (), sF)"
    and G0: "run_all [layout_views] sF = (Inr (), s0)"
    by blast
  note B = run_all_single_success[OF B0]
  note D = run_all_single_success[OF D0]
  note F = run_all_single_success[OF F0]
  note G = run_all_single_success[OF G0]
  have "reference_colourspace (snd (run_all ?mid1 sB)) = reference_colourspace sB"
    by (rule run_all_keeps[where proj = reference_colourspace])
       (auto simp: set_correlate_colourspace_def assign_settings_def set_layout_def
          split: py_value.splits)
  from this[unfolded C] have refC: "reference_colourspace sC = reference_colourspace sB"
    by simp
  from D obtain R i where refR: "reference_colourspace sC = Some R"
    and idx: "py_index (REFERENCE_COLOURSPACES env) R = Inr i"
    and sD: "sD = sC\<lparr>RGB_colourspaces_cycle := Cycle (correlate_candidates env) 0,
             reference_colourspaces_cycle :=
               Cycle (deque_rotate (- int i - 1) (REFERENCE_COLOURSPACES env)) 0\<rparr>"
    by (auto simp: create_cycles_def split: option.splits sum.splits)
  from B refC refR have argR: "arg_reference_colourspace args = PyStr R"
    by (auto simp: set_reference_colourspace_def split: py_value.splits if_splits)
  let ?proj = "\<lambda>s. (reference_colourspace s, RGB_colourspaces_cycle s,
                    reference_colourspaces_cycle s)"
  have "?proj (snd (run_all ?mid2 sD)) = ?proj sD"
    by (rule run_all_keeps[where proj = ?proj])
       (auto simp: create_layout_presets_def create_actions_def create_image_def
          split: option.splits sum.splits)
  from this[unfolded E] have keepE: "?proj sE = ?proj sD" by simp
  from F have sF: "?proj sF = ?proj sE" "gamut_view sF \<noteq> None" "image_view sF \<noteq> None"
    "views sF = Some [ConsoleView, GamutView, ImageView]"
    by (auto simp: create_views_def split: option.splits)
  from G have s0: "?proj s0 = ?proj sF" "gamut_view s0 = gamut_view sF"
    "image_view s0 = image_view sF" "views s0 = views sF"
    by (auto simp: layout_views_def split: option.splits prod.splits)
  from s0 sF keepE sD refR idx argR show ?thesis by simp
qed

section \<open>The cycling sequences\<close>

lemma correlate_step:
  assumes "RGB_colourspaces_cycle s = Cycle xs p" "xs \<noteq> []"
    and "gamut_view s \<noteq> None" "image_view s \<noteq> None"
  shows "\<exists>s1. cycle_correlate_colourspace_action s = (Inr True, s1)
           \<and> RGB_colourspaces_cycle s1 = Cycle xs (Suc p mod length xs)
           \<and> correlate_colourspace s1 = Some (xs ! p)
           \<and> gamut_view s1 \<noteq> None \<and> image_view s1 \<noteq> None"
  using assms by (auto simp: cycle_correlate_colourspace_action_def cycle_next_def)

lemma correlate_iter:
  assumes "RGB_colourspaces_cycle s = Cycle xs p" "p < length xs"
    and "gamut_view s \<noteq> None" "image_view s \<noteq> None"
  shows "\<exists>s'. invoke_times (Suc k) cycle_correlate_colourspace_action s = Inr s'
           \<and> correlate_colourspace s' = Some (xs ! ((p + k) mod length xs))"
  using assms
proof (induction k arbitrary: s p)
  case 0
  then have "xs \<noteq> []" by auto
  from correlate_step[OF "0.prems"(1) this "0.prems"(3,4)] "0.prems"(2) show ?case by auto
next
  case (Suc k)
  then have ne: "xs \<noteq> []" by auto
  from correlate_step[OF Suc.prems(1) ne Suc.prems(3,4)] obtain s1 where
    s1: "cycle_correlate_colourspace_action s = (Inr True, s1)"
      "RGB_colourspaces_cycle s1 = Cycle xs (Suc p mod length xs)"
      "gamut_view s1 \<noteq> None" "image_view s1 \<noteq> None"
    by blast
  from ne have "Suc p mod length xs < length xs" by simp
  from Suc.IH[OF s1(2) this s1(3,4)] obtain s' where
    s': "invoke_times (Suc k) cycle_correlate_colourspace_action s1 = Inr s'"
      "correlate_colourspace s' = Some (xs ! ((Suc p mod length xs + k) mod length xs))"
    by blast
  have "(Suc p mod length xs + k) mod length xs = (p + Suc k) mod length xs"
    by (simp add: mod_add_left_eq)
  with s' s1(1) show ?case by simp
qed

lemma reference_step:
  assumes "reference_colourspaces_cycle s = Cycle xs p" "xs \<noteq> []" "gamut_view s \<noteq> None"
  shows "\<exists>s1. cycle_reference_colourspace_action s = (Inr True, s1)
           \<and> reference_colourspaces_cycle s1 = Cycle xs (Suc p mod length xs)
           \<and> reference_colourspace s1 = Some (xs ! p)
           \<and> gamut_view s1 \<noteq> None"
  using assms by (auto simp: cycle_reference_colourspace_action_def cycle_next_def)

lemma reference_iter:
  assumes "reference_colourspaces_cycle s = Cycle xs p" "p < length xs"
    and "gamut_view s \<noteq> None"
  shows "\<exists>s'. invoke_times (Suc k) cycle_reference_colourspace_action s = Inr s'
           \<and> reference_colourspace s' = Some (xs ! ((p + k) mod length xs))"
  using assms
proof (induction k arbitrary: s p)
  case 0
  then have "xs \<noteq> []" by auto
  from reference_step[OF "0.prems"(1) this "0.prems"(3)] "0.prems"(2) show ?case by auto
next
  case (Suc k)
  then have ne: "xs \<noteq> []" by auto
  from reference_step[OF Suc.prems(1) ne Suc.prems(3)] obtain s1 where
    s1: "cycle_reference_colourspace_action s = (Inr True, s1)"
      "reference_colourspaces_cycle s1 = Cycle xs (Suc p mod length xs)"
      "gamut_view s1 \<noteq> None"
    by blast
  from ne have "Suc p mod length xs < length xs" by simp
  from Suc.IH[OF s1(2) this s1(3)] obtain s' where
    s': "invoke_times (Suc k) cycle_reference_colourspace_action s1 = Inr s'"
      "reference_colourspace s' = Some (xs ! ((Suc p mod length xs + k) mod length xs))"
    by blast
  have "(Suc p mod length xs + k) mod length xs = (p + Suc k) mod length xs"
    by (simp add: mod_add_left_eq)
  with s' s1(1) show ?case by simp
qed


lemma mset_rotate_list: "mset (rotate n xs) = mset xs"
proof -
  let ?k = "n mod length xs"
  have "mset (rotate n xs) = mset (drop ?k xs) + mset (take ?k xs)"
    by (simp add: rotate_drop_take)
  also have "\<dots> = mset (take ?k xs) + mset (drop ?k xs)"
    by (rule add.commute)
  also have "\<dots> = mset (take ?k xs @ drop ?k xs)"
    by (simp only: mset_append)
  also have "\<dots> = mset xs"
    by (simp only: append_take_drop_id)
  finally show ?thesis .
qed

lemma cyclic_window:
  assumes "xs \<noteq> []"
  shows "map (\<lambda>j. xs ! (j mod length xs)) [k..<k + length xs] = rotate k xs"
proof (rule nth_equalityI)
  show "length (map (\<lambda>j. xs ! (j mod length xs)) [k..<k + length xs]) = length (rotate k xs)"
    by simp
next
  fix i assume "i < length (map (\<lambda>j. xs ! (j mod length xs)) [k..<k + length xs])"
  then have i: "i < length xs" by simp
  then show "map (\<lambda>j. xs ! (j mod length xs)) [k..<k + length xs] ! i = rotate k xs ! i"
    by (simp add: nth_rotate)
qed

lemma rotate_past:
  assumes "xs = pre @ R # post"
  shows "rotate (Suc (length pre)) xs = post @ pre @ [R]"
proof -
  have "rotate (length (pre @ [R])) ((pre @ [R]) @ post) = post @ (pre @ [R])"
    by (rule rotate_append)
  with assms show ?thesis by simp
qed

lemma others_once:
  assumes "xs = pre @ R # post" "distinct xs"
  shows "distinct (post @ pre) \<and> set (post @ pre) = set xs - {R}"
  using assms by auto

lemma deque_rotate_left:
  assumes "i < length xs"
  shows "deque_rotate (- int i - 1) xs = rotate (Suc i) xs"
proof -
  have "- (- int i - 1) = int (Suc i)" by simp
  then have "nat ((- (- int i - 1)) mod int (length xs)) = nat (int (Suc i) mod int (length xs))"
    by (simp only:)
  also have "\<dots> = nat (int (Suc i mod length xs))"
    by (simp only: zmod_int)
  also have "\<dots> = Suc i mod length xs" by (rule nat_int)
  finally have "deque_rotate (- int i - 1) xs = rotate (Suc i mod length xs) xs"
    by (simp only: deque_rotate_def)
  also have "\<dots> = rotate (Suc i) xs" by (rule rotate_conv_mod[symmetric])
  finally show ?thesis .
qed

text \<open>
  C1, as the code has it. With \<open>N \<ge> 1\<close> candidates every invocation of the correlate action
  succeeds and sets \<^verbatim>\<open>correlate_colourspace\<close> to a candidate; \<open>N\<close> further invocations bring
  the attribute back to the value it has after any invocation; and any \<open>N\<close> invocations
  in a row set it to the candidates, each as often as it is in the candidate list: the
  cycle is total and wraps around with period \<open>N\<close>.
\<close>

theorem correlate_cycle_period:
  assumes "init env args = Inr s0" and "correlate_candidates env \<noteq> []"
  shows "(\<exists>s'. invoke_times (Suc k) cycle_correlate_colourspace_action s0 = Inr s'
            \<and> (\<exists>c. c \<in> set (correlate_candidates env) \<and> correlate_colourspace s' = Some c))
       \<and> map_sum id correlate_colourspace
           (invoke_times (Suc k + length (correlate_candidates env))
              cycle_correlate_colourspace_action s0)
         = map_sum id correlate_colourspace
             (invoke_times (Suc k) cycle_correlate_colourspace_action s0)
       \<and> mset (map (\<lambda>j. map_sum id correlate_colourspace
                          (invoke_times j cycle_correlate_colourspace_action s0))
                 [Suc k..<Suc k + length (correlate_candidates env)])
         = mset (map (\<lambda>c. Inr (Some c)) (correlate_candidates env))"
proof -
  let ?xs = "correlate_candidates env"
  define val where
    "val j = map_sum id correlate_colourspace
               (invoke_times j cycle_correlate_colourspace_action s0)" for j
  from init_establishes[OF assms(1)] have est: "RGB_colourspaces_cycle s0 = Cycle ?xs 0"
    "gamut_view s0 \<noteq> None" "image_view s0 \<noteq> None"
    by auto
  from assms(2) have pos: "0 < length ?xs" by simp
  have iter: "\<exists>s'. invoke_times (Suc j) cycle_correlate_colourspace_action s0 = Inr s'
      \<and> correlate_colourspace s' = Some (?xs ! (j mod length ?xs))" for j
    using correlate_iter[OF est(1) pos est(2,3), of j] by (simp del: invoke_times.simps)
  have val: "val (Suc j) = Inr (Some (?xs ! (j mod length ?xs)))" for j
  proof -
    from iter[of j] obtain s' where
      "invoke_times (Suc j) cycle_correlate_colourspace_action s0 = Inr s'"
      "correlate_colourspace s' = Some (?xs ! (j mod length ?xs))"
      by blast
    then show ?thesis unfolding val_def by (simp del: invoke_times.simps)
  qed
  from iter[of k] obtain s' where
    a: "invoke_times (Suc k) cycle_correlate_colourspace_action s0 = Inr s'"
       "correlate_colourspace s' = Some (?xs ! (k mod length ?xs))"
    by blast
  from pos have "?xs ! (k mod length ?xs) \<in> set ?xs" by simp
  with a have 1: "\<exists>s'. invoke_times (Suc k) cycle_correlate_colourspace_action s0 = Inr s'
            \<and> (\<exists>c. c \<in> set ?xs \<and> correlate_colourspace s' = Some c)"
    by blast
  have "val (Suc (k + length ?xs)) = val (Suc k)"
    using val[of "k + length ?xs"] val[of k] by simp
  then have 2: "val (Suc k + length ?xs) = val (Suc k)" by simp
  have "[Suc k..<Suc k + length ?xs] = map Suc [k..<k + length ?xs]"
    using map_Suc_upt[of k "k + length ?xs"] by simp
  then have "map val [Suc k..<Suc k + length ?xs]
      = map (\<lambda>j. val (Suc j)) [k..<k + length ?xs]"
    by (simp only: map_map comp_def)
  also have "\<dots> = map (\<lambda>j. Inr (Some (?xs ! (j mod length ?xs)))) [k..<k + length ?xs]"
    by (simp only: val)
  also have "\<dots> = map (\<lambda>c. Inr (Some c)) (map (\<lambda>j. ?xs ! (j mod length ?xs)) [k..<k + length ?xs])"
    by (simp only: map_map comp_def)
  also have "\<dots> = map (\<lambda>c. Inr (Some c)) (rotate k ?xs)"
    by (simp only: cyclic_window[OF assms(2)])
  finally have "mset (map val [Suc k..<Suc k + length ?xs])
      = mset (map (\<lambda>c. Inr (Some c)) (rotate k ?xs))"
    by (simp only:)
  also have "\<dots> = mset (map (\<lambda>c. Inr (Some c)) ?xs)"
    by (simp only: mset_map mset_rotate_list)
  finally have 3: "mset (map val [Suc k..<Suc k + length ?xs])
      = mset (map (\<lambda>c. Inr (Some c)) ?xs)" .
  from 1 2[unfolded val_def] 3[unfolded val_def] show ?thesis by (intro conjI)
qed

theorem correlate_cycle_period_witness:
  "init example_env example_args = Inr example_analysis
   \<and> correlate_candidates example_env = [''ACES2065-1'', ''ACEScg'', ''sRGB'']
   \<and> map_sum id correlate_colourspace
       (invoke_times (Suc 1 + length (correlate_candidates example_env))
          cycle_correlate_colourspace_action example_analysis)
     = map_sum id correlate_colourspace
         (invoke_times (Suc 1) cycle_correlate_colourspace_action example_analysis)
   \<and> mset (map (\<lambda>j. map_sum id correlate_colourspace
                      (invoke_times j cycle_correlate_colourspace_action example_analysis))
             [Suc 1..<Suc 1 + length (correlate_candidates example_env)])
     = mset (map (\<lambda>c. Inr (Some c)) (correlate_candidates example_env))"
proof -
  have c: "correlate_candidates example_env = [''ACES2065-1'', ''ACEScg'', ''sRGB'']"
    by (simp add: correlate_candidates_def example_env_def)
  then have ne: "correlate_candidates example_env \<noteq> []" by simp
  note w = correlate_cycle_period[OF example_init ne, of 1]
  show ?thesis
    by (rule conjI[OF example_init conjI[OF c conjunct2[OF w]]])
qed

text \<open>
  The claim as stated fails. Built with the correlate colour space \<^verbatim>\<open>ACEScg\<close> over three
  candidates, the object holds \<^verbatim>\<open>sRGB\<close>, the last candidate, after three invocations. Built
  with \<^verbatim>\<open>aces\<close>, a name of the registry that the cycle excludes, no number of invocations can
  bring that name back.
\<close>

theorem correlate_cycle_counterexample:
  "init example_env example_args = Inr example_analysis
   \<and> correlate_colourspace example_analysis = Some ''ACEScg''
   \<and> length (correlate_candidates example_env) = 3
   \<and> map_sum id correlate_colourspace
       (invoke_times 3 cycle_correlate_colourspace_action example_analysis)
     = Inr (Some ''sRGB'')
   \<and> map_sum id correlate_colourspace
       (init example_env (example_args\<lparr>arg_correlate_colourspace := PyStr ''aces''\<rparr>))
     = Inr (Some ''aces'')
   \<and> ''aces'' \<notin> set (correlate_candidates example_env)"
proof -
  have 1: "correlate_colourspace example_analysis = Some ''ACEScg''"
    by (simp add: example_analysis_eq)
  have c: "correlate_candidates example_env = [''ACES2065-1'', ''ACEScg'', ''sRGB'']"
    by (simp add: correlate_candidates_def example_env_def)
  have 2: "length (correlate_candidates example_env) = 3"
    by (simp add: c)
  have est: "RGB_colourspaces_cycle example_analysis
        = Cycle [''ACES2065-1'', ''ACEScg'', ''sRGB''] 0"
    "0 < length [''ACES2065-1'', ''ACEScg'', ''sRGB'']"
    "gamut_view example_analysis \<noteq> None" "image_view example_analysis \<noteq> None"
    by (simp_all add: example_analysis_eq)
  from correlate_iter[OF est, of 2] obtain s' where
    s': "invoke_times (Suc 2) cycle_correlate_colourspace_action example_analysis = Inr s'"
    "correlate_colourspace s' = Some ''sRGB''"
    by (auto simp del: invoke_times.simps)
  from s'(1) have e3: "invoke_times 3 cycle_correlate_colourspace_action example_analysis = Inr s'"
    by (simp only: numeral_3_eq_3 numeral_2_eq_2)
  have 3: "map_sum id correlate_colourspace
       (invoke_times 3 cycle_correlate_colourspace_action example_analysis)
     = Inr (Some ''sRGB'')"
    unfolding e3 using s'(2) by simp
  have 4: "map_sum id correlate_colourspace
       (init example_env (example_args\<lparr>arg_correlate_colourspace := PyStr ''aces''\<rparr>))
     = Inr (Some ''aces'')"
    by (simp add: init_def init_steps_def example_env_def example_args_def example_settings_def
      new_analysis_def rgb_contains_def lower_def lower_char_def set_image_path_def set_image_def
      set_input_colourspace_def
      set_input_oecf_def set_input_linear_def set_input_resample_def
      set_reference_colourspace_def set_correlate_colourspace_def assign_settings_def
      set_layout_def create_cycles_def correlate_candidates_def deque_rotate_def
      create_layout_presets_def layout_preset_of_def view_preset_of_def
      create_actions_def action_of_def sequence_of_def create_image_def linearise_def
      keep_rgb_def resample_def strided_def example_image_def create_views_def
      layout_views_def resolve_layout_def widget_named_def placement_of_def
      numeral_2_eq_2 rotate1_def)
  have 5: "''aces'' \<notin> set (correlate_candidates example_env)"
    by (simp add: c)
  show ?thesis
    by (rule conjI[OF example_init conjI[OF 1 conjI[OF 2 conjI[OF 3 conjI[OF 4 5]]]]])
qed

text \<open>
  C2. Let the constructor be given the reference colour space \<open>R\<close>, and let it succeed; then
  \<open>R\<close> is in the registry, at its first position \<open>i\<close>. Every invocation of the reference
  action succeeds; invocation number \<open>k\<close> sets \<^verbatim>\<open>reference_colourspace\<close> to the registry entry
  \<open>k\<close> places after \<open>R\<close>, wrapping around, so the first one gives the entry right after \<open>R\<close>.
  The first \<open>N\<close> invocations run through the entries after \<open>R\<close>, then those before \<open>R\<close>, then
  \<open>R\<close> itself: in a registry without repetitions every other entry is visited once, and
  \<open>R\<close> comes back with invocation \<open>N\<close> and not before.
\<close>

theorem reference_cycle_visits:
  assumes "init env args = Inr s0" and "arg_reference_colourspace args = PyStr R"
  shows "\<exists>i. i < length (REFERENCE_COLOURSPACES env) \<and> REFERENCE_COLOURSPACES env ! i = R
           \<and> R \<notin> set (take i (REFERENCE_COLOURSPACES env))
           \<and> reference_colourspace s0 = Some R
           \<and> (\<forall>k. \<exists>s'. invoke_times (Suc k) cycle_reference_colourspace_action s0 = Inr s'
                  \<and> reference_colourspace s'
                      = Some (REFERENCE_COLOURSPACES env
                                ! ((i + Suc k) mod length (REFERENCE_COLOURSPACES env))))
           \<and> map (\<lambda>k. map_sum id reference_colourspace
                         (invoke_times k cycle_reference_colourspace_action s0))
                 [1..<Suc (length (REFERENCE_COLOURSPACES env))]
               = map (\<lambda>x. Inr (Some x))
                   (drop (Suc i) (REFERENCE_COLOURSPACES env)
                      @ take i (REFERENCE_COLOURSPACES env) @ [R])
           \<and> (distinct (REFERENCE_COLOURSPACES env) \<longrightarrow>
                distinct (drop (Suc i) (REFERENCE_COLOURSPACES env)
                            @ take i (REFERENCE_COLOURSPACES env))
                \<and> set (drop (Suc i) (REFERENCE_COLOURSPACES env)
                         @ take i (REFERENCE_COLOURSPACES env))
                    = set (REFERENCE_COLOURSPACES env) - {R})"
proof -
  define ref where "ref = REFERENCE_COLOURSPACES env"
  define val where
    "val k = map_sum id reference_colourspace
               (invoke_times k cycle_reference_colourspace_action s0)" for k
  from init_establishes[OF assms(1)] assms(2) obtain i where
    ref0: "reference_colourspace s0 = Some R"
    and idx: "py_index ref R = Inr i"
    and cyc: "reference_colourspaces_cycle s0 = Cycle (deque_rotate (- int i - 1) ref) 0"
    and gv: "gamut_view s0 \<noteq> None"
    unfolding ref_def by auto
  from py_index_nth[OF idx] have i: "i < length ref" "ref ! i = R" by simp_all
  from py_index_first[OF idx] have first: "R \<notin> set (take i ref)" .
  define pre where "pre = take i ref"
  define post where "post = drop (Suc i) ref"
  define rot where "rot = post @ pre @ [R]"
  from i have split: "ref = pre @ R # post"
    unfolding pre_def post_def using id_take_nth_drop[OF i(1)] by simp
  from i(1) have lpre: "length pre = i" unfolding pre_def by simp
  from rotate_past[OF split] lpre have rot_eq: "rotate (Suc i) ref = rot"
    unfolding rot_def by simp
  from deque_rotate_left[OF i(1)] rot_eq have "deque_rotate (- int i - 1) ref = rot"
    by simp
  with cyc have cyc': "reference_colourspaces_cycle s0 = Cycle rot 0" by simp
  have len: "length rot = length ref"
    using rot_eq[symmetric] by simp
  from i(1) len have pos: "0 < length rot" by linarith
  have rot_nth: "rot ! (k mod length rot) = ref ! ((i + Suc k) mod length ref)" for k
  proof -
    from pos len have "k mod length ref < length ref" by simp
    then have "rotate (Suc i) ref ! (k mod length ref)
        = ref ! ((Suc i + k mod length ref) mod length ref)"
      by (rule nth_rotate)
    also have "(Suc i + k mod length ref) mod length ref = (Suc i + k) mod length ref"
      by (rule mod_add_right_eq)
    finally show ?thesis using rot_eq len by simp
  qed
  have iter: "\<exists>s'. invoke_times (Suc k) cycle_reference_colourspace_action s0 = Inr s'
      \<and> reference_colourspace s' = Some (rot ! (k mod length rot))" for k
    using reference_iter[OF cyc' pos gv, of k] by (simp del: invoke_times.simps)
  have every: "\<forall>k. \<exists>s'. invoke_times (Suc k) cycle_reference_colourspace_action s0 = Inr s'
      \<and> reference_colourspace s' = Some (ref ! ((i + Suc k) mod length ref))"
    using iter rot_nth by (simp del: invoke_times.simps)
  have val: "val (Suc j) = Inr (Some (rot ! j))" if "j < length rot" for j
  proof -
    from iter[of j] obtain s' where
      "invoke_times (Suc j) cycle_reference_colourspace_action s0 = Inr s'"
      "reference_colourspace s' = Some (rot ! (j mod length rot))"
      by blast
    with that show ?thesis unfolding val_def by (simp del: invoke_times.simps)
  qed
  have "[1..<Suc (length ref)] = map Suc [0..<length rot]"
    using map_Suc_upt[of 0 "length rot"] len by simp
  then have "map val [1..<Suc (length ref)] = map (\<lambda>j. val (Suc j)) [0..<length rot]"
    by (simp only: map_map comp_def)
  also have "\<dots> = map (\<lambda>j. Inr (Some (rot ! j))) [0..<length rot]"
    using val by simp
  also have "\<dots> = map (\<lambda>x. Inr (Some x)) (map (nth rot) [0..<length rot])"
    by (simp only: map_map comp_def)
  also have "\<dots> = map (\<lambda>x. Inr (Some x)) rot"
    by (simp only: map_nth)
  finally have window: "map val [1..<Suc (length ref)] = map (\<lambda>x. Inr (Some x)) rot" .
  have others: "distinct ref \<longrightarrow> distinct (post @ pre) \<and> set (post @ pre) = set ref - {R}"
    using others_once[OF split] by blast
  from i first ref0 every window others
  have "i < length ref \<and> ref ! i = R \<and> R \<notin> set (take i ref)
      \<and> reference_colourspace s0 = Some R
      \<and> (\<forall>k. \<exists>s'. invoke_times (Suc k) cycle_reference_colourspace_action s0 = Inr s'
             \<and> reference_colourspace s' = Some (ref ! ((i + Suc k) mod length ref)))
      \<and> map val [1..<Suc (length ref)] = map (\<lambda>x. Inr (Some x)) rot
      \<and> (distinct ref \<longrightarrow> distinct (post @ pre) \<and> set (post @ pre) = set ref - {R})"
    by (intro conjI)
  then show ?thesis
    unfolding val_def rot_def pre_def post_def ref_def by (rule exI)
qed

theorem reference_cycle_visits_witness:
  "init example_env example_args = Inr example_analysis
   \<and> arg_reference_colourspace example_args = PyStr ''CIE xyY''
   \<and> REFERENCE_COLOURSPACES example_env = [''CIE XYZ'', ''CIE xyY'', ''CIE Lab'']
   \<and> map (\<lambda>k. map_sum id reference_colourspace
                 (invoke_times k cycle_reference_colourspace_action example_analysis))
         [1..<Suc (length (REFERENCE_COLOURSPACES example_env))]
       = [Inr (Some ''CIE Lab''), Inr (Some ''CIE XYZ''), Inr (Some ''CIE xyY'')]"
proof -
  have a: "arg_reference_colourspace example_args = PyStr ''CIE xyY''"
    by (simp add: example_args_def)
  have r: "REFERENCE_COLOURSPACES example_env = [''CIE XYZ'', ''CIE xyY'', ''CIE Lab'']"
    by (simp add: example_env_def)
  from reference_cycle_visits[OF example_init a] obtain i where
    i: "i < length (REFERENCE_COLOURSPACES example_env)"
       "REFERENCE_COLOURSPACES example_env ! i = ''CIE xyY''"
    and w: "map (\<lambda>k. map_sum id reference_colourspace
                 (invoke_times k cycle_reference_colourspace_action example_analysis))
         [1..<Suc (length (REFERENCE_COLOURSPACES example_env))]
       = map (\<lambda>x. Inr (Some x))
           (drop (Suc i) (REFERENCE_COLOURSPACES example_env)
              @ take i (REFERENCE_COLOURSPACES example_env) @ [''CIE xyY''])"
    by blast
  from i(1) have "i = 0 \<or> i = 1 \<or> i = 2" unfolding r by auto
  with i(2) have i1: "i = 1" unfolding r by auto
  have "map (\<lambda>x. Inr (Some x))
           (drop (Suc i) (REFERENCE_COLOURSPACES example_env)
              @ take i (REFERENCE_COLOURSPACES example_env) @ [''CIE xyY''])
      = [Inr (Some ''CIE Lab''), Inr (Some ''CIE XYZ''), Inr (Some ''CIE xyY'') :: error + string option]"
    unfolding r i1 by simp
  with w have 4: "map (\<lambda>k. map_sum id reference_colourspace
                 (invoke_times k cycle_reference_colourspace_action example_analysis))
         [1..<Suc (length (REFERENCE_COLOURSPACES example_env))]
       = [Inr (Some ''CIE Lab''), Inr (Some ''CIE XYZ''), Inr (Some ''CIE xyY'')]"
    by (simp only:)
  show ?thesis
    by (rule conjI[OF example_init conjI[OF a conjI[OF r 4]]])
qed

end
